theory Spec2Isabelle
  imports Complex_Main "HOL-Library.Multiset" "HOL-Library.Log_Nat"
begin

section \<open>Results-Cal-System: the tabular parser and the GPA aggregator of server.js\<close>

text \<open>
  The embedding follows \<^verbatim>\<open>parseResultText\<close> and the handler of
  \<^verbatim>\<open>/api/calculate-final\<close> in \<^verbatim>\<open>src/server.js\<close>.

  \<^item> A JavaScript string is a \<^typ>\<open>string\<close>. The recogniser is configured with an ASCII
    character whitelist, and the model reads the text as ASCII: white space is the six
    ASCII white-space characters, and upper-casing maps \<open>a\<close>..\<open>z\<close> only.
  \<^item> A JavaScript Number is the rational it stands for (or a \<^typ>\<open>nat\<close> where the code
    only ever holds a small non-negative integer). In the parser the arithmetic is exact.
    In the aggregator every operation gives the nearest double of the exact result, as
    IEEE 754 arithmetic does; \<^verbatim>\<open>NaN\<close> and the infinities are not modelled.
  \<^item> A thrown \<^verbatim>\<open>Error\<close> is a value of type \<open>error\<close>, returned on the left of a sum.
  \<^item> \<open>semester\<close> and \<open>year\<close> arrive as decimal form fields; the model takes their
    numeric values and a template literal renders them in decimal.
\<close>

subsection \<open>Strings\<close>

definition isSpace :: "char \<Rightarrow> bool" where
  "isSpace c = (c \<in> set [CHR 0x09, CHR 0x0A, CHR 0x0B, CHR 0x0C, CHR 0x0D, CHR '' ''])"

text \<open>\<^verbatim>\<open>String.prototype.trim\<close>.\<close>

definition trim :: "string \<Rightarrow> string" where
  "trim s = rev (dropWhile isSpace (rev (dropWhile isSpace s)))"

text \<open>\<^verbatim>\<open>String.prototype.toUpperCase\<close>, on ASCII.\<close>

definition upperChar :: "char \<Rightarrow> char" where
  "upperChar c =
     (case map_of (zip ''abcdefghijklmnopqrstuvwxyz'' ''ABCDEFGHIJKLMNOPQRSTUVWXYZ'') c of
        None \<Rightarrow> c
      | Some u \<Rightarrow> u)"

definition toUpperCase :: "string \<Rightarrow> string" where
  "toUpperCase s = map upperChar s"

text \<open>\<^verbatim>\<open>s.split(d)\<close> for a one-character separator; \<open>cur\<close> is the piece being read.\<close>

fun splitOn :: "char \<Rightarrow> string \<Rightarrow> string \<Rightarrow> string list" where
  "splitOn d cur [] = [cur]"
| "splitOn d cur (c # cs) = (if c = d then cur # splitOn d [] cs else splitOn d (cur @ [c]) cs)"

text \<open>
  \<^verbatim>\<open>s.split(/\s{2,}/)\<close>: the pattern matches at the first position where two white-space
  characters stand side by side and, being greedy, takes the whole run.
\<close>

function splitGaps :: "string \<Rightarrow> string \<Rightarrow> string list" where
  "splitGaps cur [] = [cur]"
| "splitGaps cur [c] = [cur @ [c]]"
| "splitGaps cur (c # d # cs) =
     (if isSpace c \<and> isSpace d then cur # splitGaps [] (dropWhile isSpace cs)
      else splitGaps (cur @ [c]) (d # cs))"
  by pat_completeness auto
termination
  by (relation "measure (\<lambda>(cur, s). length s)")
     (auto simp: le_imp_less_Suc length_dropWhile_le less_Suc_eq_le le_SucI)

text \<open>\<^verbatim>\<open>line.split(/\s{2,}/).filter(col => col.trim() !== '')\<close>.\<close>

definition splitColumns :: "string \<Rightarrow> string list" where
  "splitColumns line = filter (\<lambda>col. trim col \<noteq> []) (splitGaps [] line)"

text \<open>\<^verbatim>\<open>line.startsWith('-')\<close>.\<close>

definition startsWithDash :: "string \<Rightarrow> bool" where
  "startsWithDash line = (case line of [] \<Rightarrow> False | c # _ \<Rightarrow> c = CHR ''-'')"

text \<open>\<^verbatim>\<open>line.replace(/\|/g, '')\<close>.\<close>

definition removePipes :: "string \<Rightarrow> string" where
  "removePipes line = filter (\<lambda>c. c \<noteq> CHR ''|'') line"

text \<open>The first statement of \<^verbatim>\<open>parseResultText\<close>: split, map, filter.\<close>

definition cleanLines :: "string \<Rightarrow> string list" where
  "cleanLines text =
     filter (\<lambda>line. line \<noteq> [] \<and> \<not> startsWithDash line)
       (map (\<lambda>line. trim (removePipes line)) (splitOn (CHR 0x0A) [] text))"

text \<open>The text a template literal gives for a non-negative integer.\<close>

fun decimal :: "nat \<Rightarrow> string" where
  "decimal n =
     (if n < 10 then [''0123456789'' ! n]
      else decimal (n div 10) @ [''0123456789'' ! (n mod 10)])"

declare decimal.simps [simp del]

subsection \<open>Grade points\<close>

definition gradePoints :: "(string \<times> rat) list" where
  "gradePoints =
     [(''A+'', 4), (''A'', 37 / 10), (''A-'', 33 / 10),
      (''B+'', 3), (''B'', 27 / 10), (''B-'', 23 / 10),
      (''C+'', 2), (''C'', 17 / 10), (''C-'', 13 / 10),
      (''F'', 0)]"

text \<open>
  \<^verbatim>\<open>gradePoints[grade]\<close>: \<open>None\<close> is \<^verbatim>\<open>undefined\<close>. The key is always upper-cased, and
  every property name that a plain object inherits has a lower-case letter (lemma
  \<open>upper_not_inherited\<close> below), so only the table's own keys can be found.
\<close>

definition gradePointsAt :: "string \<Rightarrow> rat option" where
  "gradePointsAt g = map_of gradePoints g"

text \<open>JavaScript truthiness of \<^verbatim>\<open>gradePoints[grade]\<close>: \<^verbatim>\<open>undefined\<close> and \<^verbatim>\<open>0\<close> are falsy.\<close>

definition truthy :: "rat option \<Rightarrow> bool" where
  "truthy v = (case v of None \<Rightarrow> False | Some p \<Rightarrow> p \<noteq> 0)"

text \<open>The documented function of the specification: the table read at a key it has.\<close>

definition gradePointValue :: "string \<Rightarrow> rat" where
  "gradePointValue g = (case gradePointsAt g of Some p \<Rightarrow> p | None \<Rightarrow> 0)"

text \<open>The names a plain object \<^verbatim>\<open>{}\<close> inherits from \<^verbatim>\<open>Object.prototype\<close>.\<close>

definition inheritedKeys :: "string list" where
  "inheritedKeys =
     [''constructor'', ''__defineGetter__'', ''__defineSetter__'', ''hasOwnProperty'',
      ''__lookupGetter__'', ''__lookupSetter__'', ''isPrototypeOf'', ''propertyIsEnumerable'',
      ''toString'', ''valueOf'', ''__proto__'', ''toLocaleString'']"

subsection \<open>Records\<close>

text \<open>
  The errors thrown: \<open>InsufficientData\<close> is
  \<^verbatim>\<open>Error('Insufficient data extracted from image')\<close>, \<open>InvalidGrade g n\<close> is
  \<^verbatim>\<open>Error(`Invalid grade '${g}' for ${n}`)\<close>, \<open>TypeError\<close> is what the runtime throws
  on reading a property of \<^verbatim>\<open>undefined\<close>, and \<open>CastError\<close> is what the database layer
  throws on a value that does not cast to the type of its path in \<^verbatim>\<open>resultSchema\<close>.
\<close>

datatype error =
    InsufficientData
  | InvalidGrade string string
  | TypeError
  | CastError

record course =
  code :: string
  grade :: string
  creditHours :: nat
  qualityPoints :: rat

text \<open>
  A document of the \<^verbatim>\<open>Result\<close> collection, with the types of \<^verbatim>\<open>resultSchema\<close>: the three
  aggregate fields are a Number, a Number and a String. The parser leaves them absent.
\<close>

record result =
  indexNo :: string
  name :: string
  semester :: nat
  year :: nat
  courses :: "course list"
  semesterGPA :: rat
  yearGPA :: "rat option"
  finalGPA :: "rat option"
  finalClass :: "string option"

subsection \<open>The parser\<close>

text \<open>\<^verbatim>\<open>parseInt(c)\<close> for a one-character string: \<open>None\<close> is \<^verbatim>\<open>NaN\<close>.\<close>

definition parseIntChar :: "char \<Rightarrow> nat option" where
  "parseIntChar c = (let n = (of_char c :: nat) in if 48 \<le> n \<and> n \<le> 57 then Some (n - 48) else None)"

text \<open>
  \<^verbatim>\<open>parseInt(courseCode[3]) || 2\<close>: \<^verbatim>\<open>courseCode[3]\<close> is \<^verbatim>\<open>undefined\<close> on a short code,
  which parses to \<^verbatim>\<open>NaN\<close>; \<^verbatim>\<open>NaN\<close> and \<^verbatim>\<open>0\<close> are falsy.
\<close>

definition creditHoursOf :: "string \<Rightarrow> nat" where
  "creditHoursOf courseCode =
     (case (if 3 < length courseCode then parseIntChar (courseCode ! 3) else None) of
        None \<Rightarrow> 2
      | Some n \<Rightarrow> if n = 0 then 2 else n)"

text \<open>
  \<^verbatim>\<open>headers[j] || `CO${year}${semester}${j}${j}`\<close>: a header token is never empty, so the
  fallback is taken exactly when the header has no token at \<open>j\<close>.
\<close>

definition courseCodeAt :: "string list \<Rightarrow> nat \<Rightarrow> nat \<Rightarrow> nat \<Rightarrow> string" where
  "courseCodeAt headers sem yr j =
     (if j < length headers \<and> headers ! j \<noteq> [] then headers ! j
      else ''CO'' @ decimal yr @ decimal sem @ decimal j @ decimal j)"

text \<open>
  The inner loop \<^verbatim>\<open>for (let j = 2; j < 7; j++)\<close> over the list of the remaining \<open>j\<close>,
  with the accumulators \<open>courses\<close>, \<open>totalQualityPoints\<close> and \<open>totalCreditHours\<close>. It
  runs only for rows of at least 7 columns, so \<open>columns ! j\<close> is in range.
\<close>

fun courseLoop ::
  "string list \<Rightarrow> nat \<Rightarrow> nat \<Rightarrow> string list \<Rightarrow> string \<Rightarrow> nat list \<Rightarrow>
   course list \<times> rat \<times> nat \<Rightarrow> error + course list \<times> rat \<times> nat" where
  "courseLoop headers sem yr columns nm [] acc = Inr acc"
| "courseLoop headers sem yr columns nm (j # js) (cs, totalQualityPoints, totalCreditHours) =
     (let courseCode = courseCodeAt headers sem yr j;
          g = toUpperCase (trim (columns ! j))
      in if \<not> truthy (gradePointsAt g) then Inl (InvalidGrade g nm)
         else
           (let ch = creditHoursOf courseCode;
                qp = the (gradePointsAt g) * of_nat ch
            in courseLoop headers sem yr columns nm js
                 (cs @ [\<lparr>code = courseCode, grade = g, creditHours = ch, qualityPoints = qp\<rparr>],
                  totalQualityPoints + qp, totalCreditHours + ch)))"

text \<open>The outer loop over \<open>lines[1..]\<close>, with the accumulator \<open>results\<close>.\<close>

fun rowLoop ::
  "string list \<Rightarrow> nat \<Rightarrow> nat \<Rightarrow> string list \<Rightarrow> result list \<Rightarrow> error + result list" where
  "rowLoop headers sem yr [] results = Inr results"
| "rowLoop headers sem yr (line # rest) results =
     (let columns = splitColumns line
      in if 7 \<le> length columns then
           (case courseLoop headers sem yr columns (trim (columns ! 1)) [2..<7] ([], 0, 0) of
              Inl e \<Rightarrow> Inl e
            | Inr (cs, totalQualityPoints, totalCreditHours) \<Rightarrow>
                rowLoop headers sem yr rest
                  (results @
                   [\<lparr>indexNo = trim (columns ! 0), name = trim (columns ! 1),
                     semester = sem, year = yr, courses = cs,
                     semesterGPA = totalQualityPoints / of_nat totalCreditHours,
                     yearGPA = None, finalGPA = None, finalClass = None\<rparr>]))
         else rowLoop headers sem yr rest results)"

definition parseResultText :: "string \<Rightarrow> nat \<Rightarrow> nat \<Rightarrow> error + result list" where
  "parseResultText text sem yr =
     (let lines = cleanLines text
      in if length lines < 2 then Inl InsufficientData
         else rowLoop (splitColumns (hd lines)) sem yr (tl lines) [])"

subsection \<open>Plain objects used as dictionaries\<close>

text \<open>
  An object is the list of its own entries in insertion order.
  \<^verbatim>\<open>if (!obj[k]) obj[k] = []; obj[k].push(v)\<close>: an array is truthy, so the entry is created
  exactly once, at the end.
\<close>

fun pushTo :: "'k \<Rightarrow> 'v \<Rightarrow> ('k \<times> 'v list) list \<Rightarrow> ('k \<times> 'v list) list" where
  "pushTo k v [] = [(k, [v])]"
| "pushTo k v ((k', vs) # obj) =
     (if k' = k then (k', vs @ [v]) # obj else (k', vs) # pushTo k v obj)"

text \<open>\<^verbatim>\<open>obj[k] = v\<close>.\<close>

fun assign :: "'k \<Rightarrow> 'v \<Rightarrow> ('k \<times> 'v) list \<Rightarrow> ('k \<times> 'v) list" where
  "assign k v [] = [(k, v)]"
| "assign k v ((k', v') # obj) =
     (if k' = k then (k', v) # obj else (k', v') # assign k v obj)"

text \<open>
  \<^verbatim>\<open>Object.entries(obj)\<close>: the keys that are array indices come first, in ascending
  numeric order, then the other keys in insertion order. \<open>idx\<close> gives the index a key
  stands for. A string key is an array index when it is the canonical decimal text of a
  number below \<open>2^32 - 1\<close>.
\<close>

definition objectEntries :: "('k \<Rightarrow> nat option) \<Rightarrow> ('k \<times> 'v) list \<Rightarrow> ('k \<times> 'v) list" where
  "objectEntries idx obj =
     sort_key (\<lambda>(k, v). the (idx k)) (filter (\<lambda>(k, v). idx k \<noteq> None) obj) @
     filter (\<lambda>(k, v). idx k = None) obj"

definition digitsValue :: "string \<Rightarrow> nat" where
  "digitsValue s = foldl (\<lambda>n c. 10 * n + (of_char c - 48)) 0 s"

definition arrayIndex :: "string \<Rightarrow> nat option" where
  "arrayIndex k =
     (if k \<noteq> [] \<and> list_all (\<lambda>c. 48 \<le> (of_char c :: nat) \<and> (of_char c :: nat) \<le> 57) k \<and>
         (k = ''0'' \<or> hd k \<noteq> CHR ''0'') \<and> digitsValue k < 4294967295
      then Some (digitsValue k) else None)"

text \<open>
  The keys of \<^verbatim>\<open>resultsByYear\<close> and \<^verbatim>\<open>yearGPAs\<close> are the decimal texts of the years; the
  model keeps the number.
\<close>

definition yearIndex :: "nat \<Rightarrow> nat option" where
  "yearIndex y = (if y < 4294967295 then Some y else None)"

subsection \<open>Double arithmetic\<close>

text \<open>
  A finite double is the rational it stands for; the two zeros are one. \<open>expo x\<close> is the
  binary exponent of a positive \<open>x\<close>: \<open>2 powi expo x \<le> x < 2 powi (expo x + 1)\<close>.
  \<open>roundDouble x\<close> is the double nearest to \<open>x\<close>, the one with the even significand on a
  tie: a multiple of \<open>2 powi (e - 52)\<close>, where \<open>e\<close> is the exponent of \<open>x\<close> and not below
  \<open>-1022\<close>. Results of magnitude \<open>2 powi 1024\<close> and more, which are infinite in IEEE 754,
  are outside the model.
\<close>

definition expo :: "rat \<Rightarrow> int" where
  "expo x = (if 1 \<le> x then bitlen \<lfloor>x\<rfloor> - 1 else - bitlen (\<lceil>1 / x\<rceil> - 1))"

definition roundEven :: "rat \<Rightarrow> int" where
  "roundEven q =
     (let n = \<lfloor>q\<rfloor>; r = q - of_int n
      in if r < 1 / 2 then n else if 1 / 2 < r then n + 1 else if even n then n else n + 1)"

definition roundDouble :: "rat \<Rightarrow> rat" where
  "roundDouble x =
     (if x = 0 then 0
      else let e = max (expo \<bar>x\<bar>) (- 1022); u = 2 powi (e - 52)
           in sgn x * (of_int (roundEven (\<bar>x\<bar> / u)) * u))"

text \<open>\<^verbatim>\<open>a + b\<close> and \<^verbatim>\<open>a / b\<close> on doubles; no divisor of the aggregator is zero.\<close>

definition fadd :: "rat \<Rightarrow> rat \<Rightarrow> rat" where
  "fadd a b = roundDouble (a + b)"

definition fdiv :: "rat \<Rightarrow> rat \<Rightarrow> rat" where
  "fdiv a b = roundDouble (a / b)"

text \<open>
  \<^verbatim>\<open>x.toFixed(2)\<close>, as the decimal number that the string denotes: the magnitude of the
  double \<open>x\<close> is rounded to the nearest multiple of \<open>1/100\<close>, to the larger one on a tie.
  \<^verbatim>\<open>parseFloat\<close> gives the double nearest to a decimal.
\<close>

definition toFixed2 :: "rat \<Rightarrow> rat" where
  "toFixed2 x =
     (if x < 0 then - (of_int \<lfloor>- x * 100 + 1 / 2\<rfloor> / 100)
      else of_int \<lfloor>x * 100 + 1 / 2\<rfloor> / 100)"

definition parseFloat :: "rat \<Rightarrow> rat" where
  "parseFloat d = roundDouble d"

subsection \<open>The aggregator\<close>

text \<open>
  The classification; the literals \<^verbatim>\<open>3.7\<close>, \<^verbatim>\<open>3.3\<close> and \<^verbatim>\<open>3.0\<close> of the source are the
  doubles nearest to them.
\<close>

definition classify :: "rat \<Rightarrow> string" where
  "classify g =
     (if roundDouble (37 / 10) \<le> g then ''First Class''
      else if roundDouble (33 / 10) \<le> g then ''Second Upper Class''
      else if roundDouble 3 \<le> g then ''Second Lower Class''
      else ''Just Pass'')"

text \<open>
  The first \<^verbatim>\<open>forEach\<close>: \<^verbatim>\<open>students\<close> is a plain object, so at an inherited name
  \<^verbatim>\<open>students[result.indexNo]\<close> is a truthy value of \<^verbatim>\<open>Object.prototype\<close>, no entry is
  created, \<^verbatim>\<open>.results\<close> of it is \<^verbatim>\<open>undefined\<close> and \<^verbatim>\<open>.push\<close> throws a
  \<^verbatim>\<open>TypeError\<close>. The \<^verbatim>\<open>name\<close> stored beside \<^verbatim>\<open>results\<close> is never read and is left out.
\<close>

fun groupByStudent ::
  "result list \<Rightarrow> (string \<times> result list) list \<Rightarrow> error + (string \<times> result list) list" where
  "groupByStudent [] students = Inr students"
| "groupByStudent (r # rs) students =
     (if indexNo r \<in> set inheritedKeys then Inl TypeError
      else groupByStudent rs (pushTo (indexNo r) r students))"

text \<open>The second \<^verbatim>\<open>forEach\<close>, over one student's results.\<close>

definition groupByYear :: "result list \<Rightarrow> (nat \<times> result list) list" where
  "groupByYear rs = foldl (\<lambda>resultsByYear r. pushTo (year r) r resultsByYear) [] rs"

text \<open>
  The loop over \<^verbatim>\<open>Object.entries(resultsByYear)\<close>, with the accumulators \<open>yearGPAs\<close>,
  \<open>totalYearGPA\<close> and \<open>yearCount\<close>. \<^verbatim>\<open>reduce\<close> adds the semester GPAs from the left,
  starting at 0. A group is never empty, so the division is by a positive length.
\<close>

fun yearLoop ::
  "(nat \<times> result list) list \<Rightarrow> (nat \<times> rat) list \<times> rat \<times> nat \<Rightarrow> (nat \<times> rat) list \<times> rat \<times> nat" where
  "yearLoop [] acc = acc"
| "yearLoop ((y, results) # rest) (yearGPAs, totalYearGPA, yearCount) =
     (let yGPA = fdiv (foldl (\<lambda>sum r. fadd sum (semesterGPA r)) 0 results) (of_nat (length results))
      in yearLoop rest
           (assign y (parseFloat (toFixed2 yGPA)) yearGPAs, fadd totalYearGPA yGPA, yearCount + 1))"

text \<open>The update document \<^verbatim>\<open>{ yearGPA: yearGPAs, finalGPA, finalClass }\<close>.\<close>

record aggregate =
  newYearGPA :: "(nat \<times> rat) list"
  newFinalGPA :: rat
  newFinalClass :: string

text \<open>
  Lines 225 to 253: what the body of the loop over the students computes from one
  student's results.
\<close>

definition studentAggregate :: "result list \<Rightarrow> aggregate" where
  "studentAggregate results =
     (case yearLoop (objectEntries yearIndex (groupByYear results)) ([], 0, 0) of
        (yearGPAs, totalYearGPA, yearCount) \<Rightarrow>
          (let fGPA = parseFloat (toFixed2 (fdiv totalYearGPA (of_nat yearCount)))
           in \<lparr>newYearGPA = yearGPAs, newFinalGPA = fGPA, newFinalClass = classify fGPA\<rparr>))"

text \<open>
  The database layer casts every value of an update to the type that its path has in
  \<^verbatim>\<open>resultSchema\<close> before it sends anything. The path \<^verbatim>\<open>yearGPA\<close> is declared a Number
  (line 36) and the update gives it the object \<^verbatim>\<open>yearGPAs\<close> (line 259): a plain object
  is not a number, the cast fails.
\<close>

definition castNumber :: "(nat \<times> rat) list \<Rightarrow> error + rat" where
  "castNumber obj = Inl CastError"

text \<open>
  \<^verbatim>\<open>Result.updateMany({ indexNo }, ...)\<close> on the store, the list of the collection's
  documents in insertion order: the store after the write, or the error of the cast.
\<close>

definition updateMany :: "string \<Rightarrow> aggregate \<Rightarrow> result list \<Rightarrow> error + result list" where
  "updateMany k a store =
     (case castNumber (newYearGPA a) of
        Inl e \<Rightarrow> Inl e
      | Inr y \<Rightarrow>
          Inr (map (\<lambda>r. if indexNo r = k
                         then r\<lparr>yearGPA := Some y, finalGPA := Some (newFinalGPA a),
                                finalClass := Some (newFinalClass a)\<rparr>
                         else r) store))"

text \<open>
  The loop over \<^verbatim>\<open>Object.entries(students)\<close>; the groups were read before any write. An
  error of \<^verbatim>\<open>updateMany\<close> ends the loop; the result is the error, if any, and the store
  as the loop left it.
\<close>

fun studentLoop :: "(string \<times> result list) list \<Rightarrow> result list \<Rightarrow> error option \<times> result list" where
  "studentLoop [] store = (None, store)"
| "studentLoop ((k, results) # rest) store =
     (case updateMany k (studentAggregate results) store of
        Inl e \<Rightarrow> (Some e, store)
      | Inr store' \<Rightarrow> studentLoop rest store')"

text \<open>
  The handler of \<^verbatim>\<open>/api/calculate-final\<close>: the error that its \<^verbatim>\<open>catch\<close> answers with
  status 500, if any, and the store after the request.
\<close>

definition calculateFinal :: "result list \<Rightarrow> error option \<times> result list" where
  "calculateFinal store =
     (case groupByStudent store [] of
        Inl e \<Rightarrow> (Some e, store)
      | Inr students \<Rightarrow> studentLoop (objectEntries arrayIndex students) store)"

text \<open>The store that a request leaves behind.\<close>

definition recalculateAll :: "result list \<Rightarrow> result list" where
  "recalculateAll store = snd (calculateFinal store)"

text \<open>
  The aggregate of student \<open>s\<close>: what lines 225 to 253 compute from the results that the
  first \<^verbatim>\<open>forEach\<close> has grouped under \<open>s\<close>.
\<close>

definition aggregateOf :: "result list \<Rightarrow> string \<Rightarrow> aggregate" where
  "aggregateOf store s = studentAggregate (filter (\<lambda>r. indexNo r = s) store)"

subsection \<open>Notions used in the statements\<close>

text \<open>The grade read from column \<open>j\<close> of a row.\<close>

definition gradeAt :: "string list \<Rightarrow> nat \<Rightarrow> string" where
  "gradeAt columns j = toUpperCase (trim (columns ! j))"

text \<open>The course entry and the Semester Result that the loops build for a row, in closed form.\<close>

definition courseEntry :: "string list \<Rightarrow> nat \<Rightarrow> nat \<Rightarrow> string list \<Rightarrow> nat \<Rightarrow> course" where
  "courseEntry headers sem yr columns j =
     \<lparr>code = courseCodeAt headers sem yr j, grade = gradeAt columns j,
      creditHours = creditHoursOf (courseCodeAt headers sem yr j),
      qualityPoints =
        the (gradePointsAt (gradeAt columns j)) * of_nat (creditHoursOf (courseCodeAt headers sem yr j))\<rparr>"

definition rowResult :: "string list \<Rightarrow> nat \<Rightarrow> nat \<Rightarrow> string \<Rightarrow> result" where
  "rowResult headers sem yr line =
     (let columns = splitColumns line; cs = map (courseEntry headers sem yr columns) [2..<7]
      in \<lparr>indexNo = trim (columns ! 0), name = trim (columns ! 1), semester = sem, year = yr,
          courses = cs,
          semesterGPA = sum_list (map qualityPoints cs) / of_nat (sum_list (map creditHours cs)),
          yearGPA = None, finalGPA = None, finalClass = None\<rparr>)"

text \<open>A valid data row has at least 7 columns; it is accepted when the check passes all five grades.\<close>

definition validRow :: "string \<Rightarrow> bool" where
  "validRow line = (7 \<le> length (splitColumns line))"

definition rowAccepted :: "string \<Rightarrow> bool" where
  "rowAccepted line =
     list_all (\<lambda>j. truthy (gradePointsAt (gradeAt (splitColumns line) j))) [2..<7]"

text \<open>A decimal digit, and the number it stands for.\<close>

definition isDigit :: "char \<Rightarrow> bool" where
  "isDigit c = (48 \<le> (of_char c :: nat) \<and> (of_char c :: nat) \<le> 57)"

definition digitOf :: "char \<Rightarrow> nat" where
  "digitOf c = of_char c - 48"

text \<open>The Semester Result of the example sheet used below.\<close>

definition exampleResult :: result where
  "exampleResult =
     \<lparr>indexNo = ''20/COM/001'', name = ''Jane Doe'', semester = 1, year = 1,
      courses =
        [\<lparr>code = ''CO131'', grade = ''A'', creditHours = 3, qualityPoints = 111 / 10\<rparr>,
         \<lparr>code = ''CO1133'', grade = ''B+'', creditHours = 1, qualityPoints = 3\<rparr>,
         \<lparr>code = ''CO1144'', grade = ''C'', creditHours = 1, qualityPoints = 17 / 10\<rparr>,
         \<lparr>code = ''CO1155'', grade = ''A-'', creditHours = 1, qualityPoints = 33 / 10\<rparr>,
         \<lparr>code = ''CO1166'', grade = ''C+'', creditHours = 1, qualityPoints = 2\<rparr>],
      semesterGPA = 211 / 70, yearGPA = None, finalGPA = None, finalClass = None\<rparr>"

text \<open>
  The distinct elements of a list in the order of their first occurrence, and the groups
  of a list under a key: what the grouping loops build, in closed form.
\<close>

definition firstSeen :: "'a list \<Rightarrow> 'a list" where
  "firstSeen xs = rev (remdups (rev xs))"

definition groupsOf :: "('r \<Rightarrow> 'k) \<Rightarrow> 'r list \<Rightarrow> ('k \<times> 'r list) list" where
  "groupsOf f rs = map (\<lambda>k. (k, filter (\<lambda>r. f r = k) rs)) (firstSeen (map f rs))"

text \<open>
  The sum of a list of doubles, added from the left starting at 0, as \<^verbatim>\<open>reduce\<close> and the
  accumulator \<open>totalYearGPA\<close> do; the unrounded mean of the semester GPAs of a group of
  documents, and of those of a student's year \<open>y\<close>, in the order of the documents; and
  the distinct years of a student's documents in the order in which
  \<^verbatim>\<open>Object.entries(resultsByYear)\<close> gives them.
\<close>

definition fsum :: "rat list \<Rightarrow> rat" where
  "fsum xs = foldl fadd 0 xs"

definition groupMean :: "result list \<Rightarrow> rat" where
  "groupMean g = fdiv (fsum (map semesterGPA g)) (of_nat (length g))"

definition yearMean :: "result list \<Rightarrow> nat \<Rightarrow> rat" where
  "yearMean rs y = groupMean (filter (\<lambda>r. year r = y) rs)"

definition yearsOf :: "result list \<Rightarrow> nat list" where
  "yearsOf rs = map fst (objectEntries yearIndex (groupByYear rs))"

text \<open>Some document carries an index number that is an inherited property name.\<close>

definition inheritedIndexNo :: "result list \<Rightarrow> bool" where
  "inheritedIndexNo store = list_ex (\<lambda>r. indexNo r \<in> set inheritedKeys) store"

text \<open>
  A stored document with the given index number, year and semester GPA, the aggregate
  fields absent; the fields that the aggregator never reads are fixed.
\<close>

definition document :: "string \<Rightarrow> nat \<Rightarrow> rat \<Rightarrow> result" where
  "document k y g =
     \<lparr>indexNo = k, name = ''N'', semester = 1, year = y, courses = [], semesterGPA = g,
      yearGPA = None, finalGPA = None, finalClass = None\<rparr>"

text \<open>The (year, semester GPA) pairs of the documents of student \<open>s\<close>.\<close>

definition pairsOf :: "result list \<Rightarrow> string \<Rightarrow> (nat \<times> rat) list" where
  "pairsOf store s = map (\<lambda>r. (year r, semesterGPA r)) (filter (\<lambda>r. indexNo r = s) store)"

text \<open>The documents of student \<open>s\<close>, in the order of the store.\<close>

definition recordsOf :: "result list \<Rightarrow> string \<Rightarrow> result list" where
  "recordsOf store s = filter (\<lambda>r. indexNo r = s) store"

section \<open>The parser\<close>

subsection \<open>Strings and the grade table\<close>

lemma last_dropWhile: "dropWhile P xs \<noteq> [] \<Longrightarrow> last (dropWhile P xs) = last xs"
  by (induction xs) (auto split: if_splits)

lemma trim_hd: "trim s \<noteq> [] \<Longrightarrow> \<not> isSpace (hd (trim s))"
proof -
  assume ne: "trim s \<noteq> []"
  let ?ys = "dropWhile isSpace s"
  let ?zs = "dropWhile isSpace (rev ?ys)"
  from ne have zs: "?zs \<noteq> []" by (simp add: trim_def)
  then have ys: "?ys \<noteq> []" by (cases "dropWhile isSpace s") simp_all
  have "hd (trim s) = last ?zs" using zs by (simp add: trim_def hd_rev)
  also have "\<dots> = last (rev ?ys)" using zs by (rule last_dropWhile)
  also have "\<dots> = hd ?ys" using ys by (simp add: last_rev)
  finally show ?thesis using hd_dropWhile [OF ys] by simp
qed

lemma trim_last: "trim s \<noteq> [] \<Longrightarrow> \<not> isSpace (last (trim s))"
proof -
  assume ne: "trim s \<noteq> []"
  let ?zs = "dropWhile isSpace (rev (dropWhile isSpace s))"
  from ne have zs: "?zs \<noteq> []" by (simp add: trim_def)
  have "last (trim s) = hd ?zs" using zs by (simp add: trim_def last_rev)
  then show ?thesis using hd_dropWhile [OF zs] by simp
qed

lemma set_trim: "set (trim s) \<subseteq> set s"
  by (auto simp: trim_def dest!: set_dropWhileD)

lemma startsWithDash_hd: "l \<noteq> [] \<Longrightarrow> startsWithDash l \<longleftrightarrow> hd l = CHR ''-''"
  by (cases l) (simp_all add: startsWithDash_def)

lemma cleanLines_eq:
  "cleanLines text =
     filter (\<lambda>l. l \<noteq> [] \<and> hd l \<noteq> CHR ''-'')
       (map (\<lambda>raw. trim (removePipes raw)) (splitOn (CHR 0x0A) [] text))"
  unfolding cleanLines_def by (rule filter_cong) (auto simp: startsWithDash_hd)

lemma cleanLines_line:
  assumes "l \<in> set (cleanLines text)"
  shows "CHR ''|'' \<notin> set l \<and> \<not> isSpace (hd l) \<and> \<not> isSpace (last l)"
proof -
  from assms obtain raw where l: "l = trim (removePipes raw)" and ne: "l \<noteq> []"
    by (auto simp: cleanLines_def)
  have "set l \<subseteq> set (removePipes raw)" unfolding l by (rule set_trim)
  then have "CHR ''|'' \<notin> set l" by (auto simp: removePipes_def)
  moreover have "\<not> isSpace (hd l)" using ne trim_hd l by simp
  moreover have "\<not> isSpace (last l)" using ne trim_last l by simp
  ultimately show ?thesis by simp
qed

subsection \<open>The two loops in closed form\<close>

lemma courseLoop_Inr:
  "list_all (\<lambda>j. truthy (gradePointsAt (gradeAt columns j))) js \<Longrightarrow>
   courseLoop headers sem yr columns nm js (cs, tq, tc) =
     Inr (cs @ map (courseEntry headers sem yr columns) js,
          tq + sum_list (map qualityPoints (map (courseEntry headers sem yr columns) js)),
          tc + sum_list (map creditHours (map (courseEntry headers sem yr columns) js)))"
proof (induction js arbitrary: cs tq tc)
  case Nil
  then show ?case by simp
next
  case (Cons j js)
  from Cons.prems have j: "truthy (gradePointsAt (toUpperCase (trim (columns ! j))))"
    and js: "list_all (\<lambda>j. truthy (gradePointsAt (gradeAt columns j))) js"
    by (simp_all add: gradeAt_def)
  show ?case
    using j by (simp add: Let_def Cons.IH [OF js] courseEntry_def gradeAt_def)
qed

lemma courseLoop_Inl:
  "\<not> list_all (\<lambda>j. truthy (gradePointsAt (gradeAt columns j))) js \<Longrightarrow>
   \<exists>j \<in> set js. \<not> truthy (gradePointsAt (gradeAt columns j)) \<and>
     courseLoop headers sem yr columns nm js acc = Inl (InvalidGrade (gradeAt columns j) nm)"
proof (induction js arbitrary: acc)
  case Nil
  then show ?case by simp
next
  case (Cons j js)
  obtain cs tq tc where acc: "acc = (cs, tq, tc)" by (cases acc)
  show ?case
  proof (cases "truthy (gradePointsAt (gradeAt columns j))")
    case True
    with Cons.prems have "\<not> list_all (\<lambda>j. truthy (gradePointsAt (gradeAt columns j))) js" by simp
    from Cons.IH [OF this] True acc show ?thesis
      by (simp add: Let_def gradeAt_def)
  next
    case False
    with acc show ?thesis by (simp add: Let_def gradeAt_def)
  qed
qed

lemma courseLoop_accepted:
  assumes "rowAccepted l"
  shows "courseLoop headers sem yr (splitColumns l) nm [2..<7] ([], 0, 0) =
      Inr (map (courseEntry headers sem yr (splitColumns l)) [2..<7],
           sum_list (map qualityPoints (map (courseEntry headers sem yr (splitColumns l)) [2..<7])),
           sum_list (map creditHours (map (courseEntry headers sem yr (splitColumns l)) [2..<7])))"
proof -
  from assms have "list_all (\<lambda>j. truthy (gradePointsAt (gradeAt (splitColumns l) j))) [2..<7]"
    by (simp only: rowAccepted_def)
  from courseLoop_Inr [OF this, of headers sem yr nm "[]" 0 0] show ?thesis
    by (simp only: append_Nil add_0)
qed

lemma rowLoop_Inr:
  "list_all (\<lambda>l. validRow l \<longrightarrow> rowAccepted l) ls \<Longrightarrow>
   rowLoop headers sem yr ls rs = Inr (rs @ map (rowResult headers sem yr) (filter validRow ls))"
proof (induction ls arbitrary: rs)
  case Nil
  then show ?case by simp
next
  case (Cons l ls)
  from Cons.prems have ls: "list_all (\<lambda>l. validRow l \<longrightarrow> rowAccepted l) ls" by simp
  show ?case
  proof (cases "validRow l")
    case True
    with Cons.prems have "rowAccepted l" by simp
    from courseLoop_accepted [OF this] True show ?thesis
      by (simp add: Let_def validRow_def Cons.IH [OF ls] rowResult_def del: upt.simps)
  next
    case False
    then show ?thesis by (simp add: Let_def validRow_def Cons.IH [OF ls])
  qed
qed

lemma rowLoop_Inl:
  "\<not> list_all (\<lambda>l. validRow l \<longrightarrow> rowAccepted l) ls \<Longrightarrow>
   \<exists>l \<in> set ls. \<exists>j \<in> set [2..<7]. validRow l \<and>
     \<not> truthy (gradePointsAt (gradeAt (splitColumns l) j)) \<and>
     rowLoop headers sem yr ls rs =
       Inl (InvalidGrade (gradeAt (splitColumns l) j) (trim (splitColumns l ! 1)))"
proof (induction ls arbitrary: rs)
  case Nil
  then show ?case by simp
next
  case (Cons l ls)
  show ?case
  proof (cases "validRow l \<longrightarrow> rowAccepted l")
    case ok: True
    with Cons.prems have rest: "\<not> list_all (\<lambda>l. validRow l \<longrightarrow> rowAccepted l) ls" by simp
    show ?thesis
    proof (cases "validRow l")
      case True
      with ok have "rowAccepted l" by simp
      from courseLoop_accepted [OF this] True Cons.IH [OF rest] show ?thesis
        by (simp add: Let_def validRow_def del: upt.simps)
    next
      case False
      with Cons.IH [OF rest] show ?thesis by (simp add: Let_def validRow_def del: upt.simps)
    qed
  next
    case False
    then have v: "validRow l" and "\<not> rowAccepted l" by simp_all
    then have "\<not> list_all (\<lambda>j. truthy (gradePointsAt (gradeAt (splitColumns l) j))) [2..<7]"
      by (simp only: rowAccepted_def not_False_eq_True)
    from courseLoop_Inl [OF this, of headers sem yr "trim (splitColumns l ! 1)" "([], 0, 0)"]
    obtain j where "j \<in> set [2..<7]" "\<not> truthy (gradePointsAt (gradeAt (splitColumns l) j))"
      "courseLoop headers sem yr (splitColumns l) (trim (splitColumns l ! 1)) [2..<7] ([], 0, 0) =
         Inl (InvalidGrade (gradeAt (splitColumns l) j) (trim (splitColumns l ! 1)))"
      by blast
    with v show ?thesis by (simp add: Let_def validRow_def del: upt.simps) blast
  qed
qed

lemma rowLoop_error:
  "rowLoop headers sem yr ls rs = Inl e \<Longrightarrow> \<exists>g n. e = InvalidGrade g n"
proof (cases "list_all (\<lambda>l. validRow l \<longrightarrow> rowAccepted l) ls")
  case True
  assume "rowLoop headers sem yr ls rs = Inl e"
  with rowLoop_Inr [OF True, of headers sem yr rs] show ?thesis by simp
next
  case False
  assume "rowLoop headers sem yr ls rs = Inl e"
  with rowLoop_Inl [OF False, of headers sem yr rs] show ?thesis by auto
qed

lemma rowLoop_skip:
  "\<forall>l \<in> set ls. length (splitColumns l) < 7 \<Longrightarrow> rowLoop headers sem yr ls rs = Inr rs"
  by (induction ls arbitrary: rs) (auto simp: Let_def)

subsection \<open>The grade table, credit hours and the result of a parse\<close>

lemma not_in_table_rejected: "g \<notin> fst ` set gradePoints \<Longrightarrow> \<not> truthy (gradePointsAt g)"
  by (simp add: gradePointsAt_def truthy_def map_of_eq_None_iff [THEN iffD2])

lemma accepted_in_table:
  assumes "truthy (gradePointsAt g)"
  shows "g \<in> fst ` set gradePoints \<and> the (gradePointsAt g) = gradePointValue g \<and> gradePointValue g \<noteq> 0"
proof -
  from assms obtain p where p: "gradePointsAt g = Some p" "p \<noteq> 0"
    by (auto simp: truthy_def split: option.splits)
  then have "(g, p) \<in> set gradePoints" by (auto simp: gradePointsAt_def dest: map_of_SomeD)
  then have "g \<in> fst ` set gradePoints" by force
  with p show ?thesis by (simp add: gradePointValue_def)
qed

lemma accepted_iff:
  "truthy (gradePointsAt g) \<longleftrightarrow>
     g \<in> set [''A+'', ''A'', ''A-'', ''B+'', ''B'', ''B-'', ''C+'', ''C'', ''C-'']"
  by (simp add: gradePointsAt_def gradePoints_def truthy_def)

lemma gradePointValue_table:
  "map gradePointValue [''A+'', ''A'', ''A-'', ''B+'', ''B'', ''B-'', ''C+'', ''C'', ''C-'', ''F''] =
     [4, 37 / 10, 33 / 10, 3, 27 / 10, 23 / 10, 2, 17 / 10, 13 / 10, 0]"
  by (simp add: gradePointValue_def gradePointsAt_def gradePoints_def)

lemma creditHoursOf_pos: "0 < creditHoursOf s"
  by (simp add: creditHoursOf_def split: option.splits)

lemma creditHoursOf_digit:
  "creditHoursOf s =
     (if 3 < length s \<and> isDigit (s ! 3) \<and> digitOf (s ! 3) \<noteq> 0 then digitOf (s ! 3) else 2)"
  by (simp add: creditHoursOf_def parseIntChar_def isDigit_def digitOf_def Let_def)

lemma splitColumns_nonempty: "col \<in> set (splitColumns line) \<Longrightarrow> col \<noteq> []"
  by (auto simp: splitColumns_def trim_def)

lemma courseCodeAt_eq:
  "courseCodeAt (splitColumns h) sem yr j =
     (if j < length (splitColumns h) then splitColumns h ! j
      else ''CO'' @ decimal yr @ decimal sem @ decimal j @ decimal j)"
  using splitColumns_nonempty [of "splitColumns h ! j" h]
  by (simp add: courseCodeAt_def)

lemma parse_Inr:
  assumes "parseResultText text sem yr = Inr results"
  shows "2 \<le> length (cleanLines text) \<and>
         list_all (\<lambda>l. validRow l \<longrightarrow> rowAccepted l) (tl (cleanLines text)) \<and>
         results = map (rowResult (splitColumns (hd (cleanLines text))) sem yr)
                     (filter validRow (tl (cleanLines text)))"
proof -
  let ?ls = "tl (cleanLines text)"
  let ?h = "splitColumns (hd (cleanLines text))"
  from assms have len: "2 \<le> length (cleanLines text)"
    and run: "rowLoop ?h sem yr ?ls [] = Inr results"
    by (simp_all add: parseResultText_def Let_def split: if_splits)
  have ok: "list_all (\<lambda>l. validRow l \<longrightarrow> rowAccepted l) ?ls"
  proof (rule ccontr)
    assume "\<not> list_all (\<lambda>l. validRow l \<longrightarrow> rowAccepted l) ?ls"
    from rowLoop_Inl [OF this, of ?h sem yr "[]"] run show False by auto
  qed
  from rowLoop_Inr [OF ok, of ?h sem yr "[]"] run len ok show ?thesis by simp
qed

lemma parse_accepted:
  assumes "2 \<le> length (cleanLines text)"
    and "list_all (\<lambda>l. validRow l \<longrightarrow> rowAccepted l) (tl (cleanLines text))"
  shows "parseResultText text sem yr =
          Inr (map (rowResult (splitColumns (hd (cleanLines text))) sem yr)
                 (filter validRow (tl (cleanLines text))))"
  using assms(1) rowLoop_Inr [OF assms(2), of "splitColumns (hd (cleanLines text))" sem yr "[]"]
  by (simp add: parseResultText_def Let_def)

lemma rowResult_courses:
  "courses (rowResult headers sem yr l) = map (courseEntry headers sem yr (splitColumns l)) [2..<7]"
  by (simp add: rowResult_def Let_def del: upt.simps)

lemma rowResult_gpa:
  "semesterGPA (rowResult headers sem yr l) =
     sum_list (map qualityPoints (courses (rowResult headers sem yr l))) /
     of_nat (sum_list (map creditHours (courses (rowResult headers sem yr l))))"
  by (simp add: rowResult_def Let_def del: upt.simps)

lemma emitted_row:
  assumes "parseResultText text sem yr = Inr results" and "r \<in> set results"
  obtains l where "l \<in> set (tl (cleanLines text))" "validRow l" "rowAccepted l"
    "r = rowResult (splitColumns (hd (cleanLines text))) sem yr l"
proof -
  from parse_Inr [OF assms(1)] assms(2)
  obtain l where l: "l \<in> set (tl (cleanLines text))" "validRow l"
    "r = rowResult (splitColumns (hd (cleanLines text))) sem yr l"
    and "list_all (\<lambda>l. validRow l \<longrightarrow> rowAccepted l) (tl (cleanLines text))"
    by auto
  then have "rowAccepted l" by (simp add: list_all_iff)
  with l that show thesis by blast
qed

lemma emitted_result_gpa:
  assumes "parseResultText text sem yr = Inr results" and "r \<in> set results"
  shows "length (courses r) = 5 \<and>
         (\<forall>c \<in> set (courses r).
            grade c \<in> fst ` set gradePoints \<and>
            qualityPoints c = gradePointValue (grade c) * of_nat (creditHours c)) \<and>
         0 < (\<Sum>c\<leftarrow>courses r. creditHours c) \<and>
         semesterGPA r =
           (\<Sum>c\<leftarrow>courses r. gradePointValue (grade c) * of_nat (creditHours c)) /
           of_nat (\<Sum>c\<leftarrow>courses r. creditHours c)"
proof -
  from assms obtain l where acc: "rowAccepted l"
    and r: "r = rowResult (splitColumns (hd (cleanLines text))) sem yr l"
    by (rule emitted_row)
  let ?h = "splitColumns (hd (cleanLines text))"
  let ?e = "courseEntry ?h sem yr (splitColumns l)"
  have cs: "courses r = map ?e [2..<7]" unfolding r by (rule rowResult_courses)
  have each: "grade c \<in> fst ` set gradePoints \<and>
      qualityPoints c = gradePointValue (grade c) * of_nat (creditHours c)"
    if "c \<in> set (courses r)" for c
  proof -
    from that cs obtain j where j: "j \<in> set [2..<7]" and c: "c = ?e j" by auto
    from acc j have "truthy (gradePointsAt (gradeAt (splitColumns l) j))"
      unfolding rowAccepted_def list_all_iff by blast
    from accepted_in_table [OF this] show ?thesis
      by (simp add: c courseEntry_def)
  qed
  have len: "length (courses r) = 5" by (simp add: cs)
  have "creditHours (?e 2) \<le> (\<Sum>c\<leftarrow>courses r. creditHours c)"
    by (simp add: cs upt_rec)
  moreover have "0 < creditHours (?e 2)" by (simp add: courseEntry_def creditHoursOf_pos)
  ultimately have pos: "0 < (\<Sum>c\<leftarrow>courses r. creditHours c)" by linarith
  have "map qualityPoints (courses r) =
        map (\<lambda>c. gradePointValue (grade c) * of_nat (creditHours c)) (courses r)"
    using each by simp
  then have "(\<Sum>c\<leftarrow>courses r. qualityPoints c) =
        (\<Sum>c\<leftarrow>courses r. gradePointValue (grade c) * of_nat (creditHours c))"
    by (rule arg_cong)
  moreover have "semesterGPA r =
      (\<Sum>c\<leftarrow>courses r. qualityPoints c) / of_nat (\<Sum>c\<leftarrow>courses r. creditHours c)"
    unfolding r by (rule rowResult_gpa)
  ultimately have "semesterGPA r =
           (\<Sum>c\<leftarrow>courses r. gradePointValue (grade c) * of_nat (creditHours c)) /
           of_nat (\<Sum>c\<leftarrow>courses r. creditHours c)"
    by (simp only:)
  with len each pos show ?thesis by blast
qed

lemma accepted_sheet_weighted_mean:
  "(2 \<le> length (cleanLines text) \<and>
    list_all (\<lambda>l. validRow l \<longrightarrow> rowAccepted l) (tl (cleanLines text)) \<longrightarrow>
      (\<exists>rs. parseResultText text sem yr = Inr rs \<and>
            length rs = length (filter validRow (tl (cleanLines text))))) \<and>
   (parseResultText text sem yr = Inr results \<and> r \<in> set results \<longrightarrow>
      length (courses r) = 5 \<and>
      (\<forall>c \<in> set (courses r).
         grade c \<in> fst ` set gradePoints \<and>
         qualityPoints c = gradePointValue (grade c) * of_nat (creditHours c)) \<and>
      0 < (\<Sum>c\<leftarrow>courses r. creditHours c) \<and>
      semesterGPA r =
        (\<Sum>c\<leftarrow>courses r. gradePointValue (grade c) * of_nat (creditHours c)) /
        of_nat (\<Sum>c\<leftarrow>courses r. creditHours c))"
proof (rule conjI; rule impI)
  assume "2 \<le> length (cleanLines text) \<and>
    list_all (\<lambda>l. validRow l \<longrightarrow> rowAccepted l) (tl (cleanLines text))"
  then have "parseResultText text sem yr =
      Inr (map (rowResult (splitColumns (hd (cleanLines text))) sem yr)
             (filter validRow (tl (cleanLines text))))"
    by (simp only: parse_accepted)
  then show "\<exists>rs. parseResultText text sem yr = Inr rs \<and>
      length rs = length (filter validRow (tl (cleanLines text)))"
    by simp
next
  assume "parseResultText text sem yr = Inr results \<and> r \<in> set results"
  then show "length (courses r) = 5 \<and>
      (\<forall>c \<in> set (courses r).
         grade c \<in> fst ` set gradePoints \<and>
         qualityPoints c = gradePointValue (grade c) * of_nat (creditHours c)) \<and>
      0 < (\<Sum>c\<leftarrow>courses r. creditHours c) \<and>
      semesterGPA r =
        (\<Sum>c\<leftarrow>courses r. gradePointValue (grade c) * of_nat (creditHours c)) /
        of_nat (\<Sum>c\<leftarrow>courses r. creditHours c)"
    using emitted_result_gpa [of "text" sem yr results r] by blast
qed


subsection \<open>Evaluation of the parser on example sheets\<close>

lemmas parse_eval =
  parseResultText_def cleanLines_def removePipes_def trim_def isSpace_def startsWithDash_def
  splitColumns_def courseCodeAt_def toUpperCase_def upperChar_def gradePointsAt_def
  gradePoints_def truthy_def creditHoursOf_def parseIntChar_def upt_rec Let_def

lemma sheet_ok:
  "parseResultText
     ''IndexNo  Name  CO131\<newline>20/COM/001  Jane Doe  A  B+  C  A-  c+'' 1 1 =
   Inr [exampleResult]"
  by (simp add: parse_eval decimal.simps exampleResult_def)

lemma sheet_D:
  "parseResultText
     ''IndexNo  Name  CO101  CO102  CO103  CO104  CO105\<newline>20/COM/001  Jane Doe  A  B+  C  A-  B\<newline>20/COM/002  John Roe  A  A  D  A  A'' 1 1 =
   Inl (InvalidGrade ''D'' ''John Roe'')"
  by (simp add: parse_eval)

subsection \<open>Claims about the parser\<close>

text \<open>
  C1. Every grade of the table but \<open>F\<close> is accepted with its documented grade point, and
  every string outside the table is rejected (lemmas \<open>accepted_iff\<close>,
  \<open>gradePointValue_table\<close>, \<open>not_in_table_rejected\<close>). The grade \<open>F\<close> is in the table with
  the grade point \<open>0\<close>, and \<^verbatim>\<open>!gradePoints[grade]\<close> takes \<open>0\<close> for a missing entry: a
  well-formed row that holds \<open>F\<close> does not parse, it aborts the sheet with the error of an
  invalid grade.
\<close>

theorem grade_F_rejected_by_truthiness_check:
  "gradePointsAt ''F'' = Some 0 \<and>
   parseResultText
     ''IndexNo  Name  CO101  CO102  CO103  CO104  CO105\<newline>20/COM/001  Jane Doe  A  B+  C  A-  F'' 1 1 =
   Inl (InvalidGrade ''F'' ''Jane Doe'')"
  by (simp add: parse_eval)

text \<open>
  C2. When a row of at least 7 columns holds, in one of its five course columns, a grade
  that is not in the table, the parse returns the invalid-grade error, which names a
  rejected grade of a valid row and that row's student, and returns no Semester Result
  at all, whatever rows came before.
\<close>

theorem invalid_grade_aborts_batch:
  assumes "line \<in> set (tl (cleanLines text))"
    and "7 \<le> length (splitColumns line)"
    and "j \<in> {2..6}"
    and "toUpperCase (trim (splitColumns line ! j)) \<notin> fst ` set gradePoints"
  shows "(\<exists>l \<in> set (tl (cleanLines text)). \<exists>i \<in> {2..6}.
            7 \<le> length (splitColumns l) \<and>
            \<not> truthy (gradePointsAt (toUpperCase (trim (splitColumns l ! i)))) \<and>
            parseResultText text sem yr =
              Inl (InvalidGrade (toUpperCase (trim (splitColumns l ! i))) (trim (splitColumns l ! 1)))) \<and>
         (\<forall>results. parseResultText text sem yr \<noteq> Inr results)"
proof -
  let ?ls = "tl (cleanLines text)"
  let ?h = "splitColumns (hd (cleanLines text))"
  have len: "2 \<le> length (cleanLines text)"
    using assms(1) by (cases "cleanLines text") (auto simp: Suc_le_eq)
  have j: "j \<in> set [2..<7]" using assms(3) by auto
  from assms(4) have "\<not> truthy (gradePointsAt (gradeAt (splitColumns line) j))"
    unfolding gradeAt_def by (rule not_in_table_rejected)
  with j have "\<not> rowAccepted line" unfolding rowAccepted_def list_all_iff by blast
  with assms(1,2) have "\<not> list_all (\<lambda>l. validRow l \<longrightarrow> rowAccepted l) ?ls"
    unfolding list_all_iff validRow_def by blast
  from rowLoop_Inl [OF this, of ?h sem yr "[]"]
  obtain l i where l: "l \<in> set ?ls" and i: "i \<in> set [2..<7]" and v: "validRow l"
    and rej: "\<not> truthy (gradePointsAt (gradeAt (splitColumns l) i))"
    and run: "rowLoop ?h sem yr ?ls [] =
       Inl (InvalidGrade (gradeAt (splitColumns l) i) (trim (splitColumns l ! 1)))"
    by blast
  from run len have p: "parseResultText text sem yr =
      Inl (InvalidGrade (toUpperCase (trim (splitColumns l ! i))) (trim (splitColumns l ! 1)))"
    by (simp add: parseResultText_def Let_def gradeAt_def)
  from i have i': "i \<in> {2..6}" by auto
  from v have v': "7 \<le> length (splitColumns l)" by (simp only: validRow_def)
  from rej have rej': "\<not> truthy (gradePointsAt (toUpperCase (trim (splitColumns l ! i))))"
    unfolding gradeAt_def .
  have "\<exists>l \<in> set (tl (cleanLines text)). \<exists>i \<in> {2..6}.
            7 \<le> length (splitColumns l) \<and>
            \<not> truthy (gradePointsAt (toUpperCase (trim (splitColumns l ! i)))) \<and>
            parseResultText text sem yr =
              Inl (InvalidGrade (toUpperCase (trim (splitColumns l ! i))) (trim (splitColumns l ! 1)))"
    using l i' v' rej' p by blast
  moreover have "\<forall>results. parseResultText text sem yr \<noteq> Inr results"
    using p by simp
  ultimately show ?thesis by (rule conjI)
qed

theorem invalid_grade_aborts_batch_witness:
  "2 \<le> length (cleanLines ''IndexNo  Name  CO101  CO102  CO103  CO104  CO105\<newline>20/COM/001  Jane Doe  A  B+  C  A-  B\<newline>20/COM/002  John Roe  A  A  D  A  A'') \<and>
   ''20/COM/002  John Roe  A  A  D  A  A'' \<in> set (tl (cleanLines ''IndexNo  Name  CO101  CO102  CO103  CO104  CO105\<newline>20/COM/001  Jane Doe  A  B+  C  A-  B\<newline>20/COM/002  John Roe  A  A  D  A  A'')) \<and>
   7 \<le> length (splitColumns ''20/COM/002  John Roe  A  A  D  A  A'') \<and>
   toUpperCase (trim (splitColumns ''20/COM/002  John Roe  A  A  D  A  A'' ! 4)) \<notin> fst ` set gradePoints \<and>
   parseResultText ''IndexNo  Name  CO101  CO102  CO103  CO104  CO105\<newline>20/COM/001  Jane Doe  A  B+  C  A-  B\<newline>20/COM/002  John Roe  A  A  D  A  A'' 1 1 =
     Inl (InvalidGrade ''D'' ''John Roe'')"
  using invalid_grade_aborts_batch
    [of "''IndexNo  Name  CO101  CO102  CO103  CO104  CO105\<newline>20/COM/001  Jane Doe  A  B+  C  A-  B\<newline>20/COM/002  John Roe  A  A  D  A  A''"
        "''20/COM/002  John Roe  A  A  D  A  A''" 4 1 1]
    sheet_D
  by (simp add: cleanLines_def removePipes_def trim_def isSpace_def startsWithDash_def
        splitColumns_def toUpperCase_def upperChar_def gradePoints_def)

text \<open>
  C4. For a row of at least 7 columns whose five grades pass the check, which are the
  nine grades of the table other than \<open>F\<close>, the Semester Result has the credit-hour-weighted
  mean as \<open>semesterGPA\<close> (lemma \<open>accepted_sheet_weighted_mean\<close>, in exact arithmetic). A
  row that holds the table grade \<open>F\<close> is within the claim, and for it the code emits no
  Semester Result at all: the row below has five grades of the table, the weighted mean
  that the claim gives it is 2.96, and the parse ends in the error of an invalid grade.
  This is the defect of C1.
\<close>

theorem row_with_F_emits_no_result:
  "validRow ''S1  Ann  A  A  A  A  F'' \<and>
   list_all (\<lambda>j. gradeAt (splitColumns ''S1  Ann  A  A  A  A  F'') j \<in> fst ` set gradePoints)
     [2..<7] \<and>
   (\<Sum>j\<leftarrow>[2..<7]. gradePointValue (gradeAt (splitColumns ''S1  Ann  A  A  A  A  F'') j) *
        of_nat (creditHoursOf
          (splitColumns ''IndexNo  Name  CO101  CO102  CO103  CO104  CO105'' ! j))) /
   of_nat (\<Sum>j\<leftarrow>[2..<7]. creditHoursOf
          (splitColumns ''IndexNo  Name  CO101  CO102  CO103  CO104  CO105'' ! j)) = 74 / 25 \<and>
   parseResultText
     ''IndexNo  Name  CO101  CO102  CO103  CO104  CO105\<newline>S1  Ann  A  A  A  A  F'' 1 1 =
   Inl (InvalidGrade ''F'' ''Ann'')"
  by (simp add: parse_eval validRow_def gradeAt_def gradePointValue_def)

text \<open>
  C6. The parse fails with the insufficient-data error exactly when fewer than 2 lines
  remain after the cleanup. When at least 2 lines remain and every data line has fewer
  than 7 columns, the rows are skipped and the parse returns the empty sequence.
\<close>

theorem insufficient_data_iff_short_rows_skipped:
  "(parseResultText text sem yr = Inl InsufficientData \<longleftrightarrow> length (cleanLines text) < 2) \<and>
   (2 \<le> length (cleanLines text) \<and>
    (\<forall>line \<in> set (tl (cleanLines text)). length (splitColumns line) < 7)
      \<longrightarrow> parseResultText text sem yr = Inr [])"
proof (intro conjI impI)
  show "parseResultText text sem yr = Inl InsufficientData \<longleftrightarrow> length (cleanLines text) < 2"
    by (auto simp: parseResultText_def Let_def dest: rowLoop_error)
next
  assume "2 \<le> length (cleanLines text) \<and>
    (\<forall>line \<in> set (tl (cleanLines text)). length (splitColumns line) < 7)"
  then show "parseResultText text sem yr = Inr []"
    by (simp add: parseResultText_def Let_def rowLoop_skip)
qed

theorem insufficient_data_iff_short_rows_skipped_witness:
  "length (cleanLines ''IndexNo  Name\<newline>page 1  of 2'') = 2 \<and>
   map (\<lambda>l. length (splitColumns l)) (tl (cleanLines ''IndexNo  Name\<newline>page 1  of 2'')) = [2] \<and>
   parseResultText ''IndexNo  Name\<newline>page 1  of 2'' 1 1 = Inr [] \<and>
   parseResultText ''IndexNo  Name'' 1 1 = Inl InsufficientData"
  using insufficient_data_iff_short_rows_skipped [of "''IndexNo  Name\<newline>page 1  of 2''" 1 1]
    insufficient_data_iff_short_rows_skipped [of "''IndexNo  Name''" 1 1]
  by (simp add: cleanLines_def trim_def removePipes_def isSpace_def startsWithDash_def
        splitColumns_def)

text \<open>
  C7, as stated, fails: a line whose cleaned text begins with a dash is discarded even
  when row data follows the dash. Here the only data row of a sheet is lost, and the parse
  reports insufficient data.
\<close>

theorem dash_prefixed_data_row_discarded:
  "trim (removePipes ''| - 20/COM/001  Jane Doe  A  B+  C  A-  B |'') =
     ''- 20/COM/001  Jane Doe  A  B+  C  A-  B'' \<and>
   cleanLines
     ''IndexNo  Name  CO101  CO102  CO103  CO104  CO105\<newline>| - 20/COM/001  Jane Doe  A  B+  C  A-  B |'' =
     [''IndexNo  Name  CO101  CO102  CO103  CO104  CO105''] \<and>
   parseResultText
     ''IndexNo  Name  CO101  CO102  CO103  CO104  CO105\<newline>| - 20/COM/001  Jane Doe  A  B+  C  A-  B |'' 1 1 =
     Inl InsufficientData"
  by (simp add: parse_eval)

text \<open>
  C7, amended. The cleanup removes the pipe characters of every line and trims it; the
  lines it keeps are, in order, exactly the cleaned lines that are not empty and do not
  begin with a dash. A kept line has no pipe and no white space at either end.
\<close>

theorem cleanLines_keeps_exactly:
  "cleanLines text =
     filter (\<lambda>l. l \<noteq> [] \<and> hd l \<noteq> CHR ''-'')
       (map (\<lambda>raw. trim (removePipes raw)) (splitOn (CHR 0x0A) [] text)) \<and>
   (l \<in> set (cleanLines text) \<longrightarrow>
      CHR ''|'' \<notin> set l \<and> \<not> isSpace (hd l) \<and> \<not> isSpace (last l))"
  using cleanLines_eq [of "text"] cleanLines_line [of l "text"] by blast

theorem cleanLines_keeps_exactly_witness:
  "''20/COM/001  Jane'' \<in> set (cleanLines ''| IndexNo  Name |\<newline>|---|\<newline>\<newline>| 20/COM/001  Jane |'') \<and>
   cleanLines ''| IndexNo  Name |\<newline>|---|\<newline>\<newline>| 20/COM/001  Jane |'' =
     [''IndexNo  Name'', ''20/COM/001  Jane'']"
  using cleanLines_keeps_exactly
    [of "''| IndexNo  Name |\<newline>|---|\<newline>\<newline>| 20/COM/001  Jane |''" "''20/COM/001  Jane''"]
  by (simp add: trim_def removePipes_def isSpace_def)

text \<open>
  C8, as stated, fails: the 4th character of \<open>CO101\<close> is the digit \<open>0\<close>, whose value is
  0, and the course gets 2 credit hours.
\<close>

theorem creditHours_digit_zero_defaults:
  "isDigit (''CO101'' ! 3) \<and> digitOf (''CO101'' ! 3) = 0 \<and>
   (case parseResultText
           ''IndexNo  Name  CO101  CO102  CO103  CO104  CO105\<newline>20/COM/001  Jane Doe  A  B+  C  A-  B'' 1 1 of
      Inr [r] \<Rightarrow> map (\<lambda>c. (code c, creditHours c)) (courses r)
    | _ \<Rightarrow> []) =
     [(''CO101'', 2), (''CO102'', 2), (''CO103'', 2), (''CO104'', 2), (''CO105'', 2)]"
  by (simp add: parse_eval isDigit_def digitOf_def)

text \<open>
  C8, amended. In every emitted Semester Result, the code of the course of column
  \<open>j = k + 2\<close> is the header token at \<open>j\<close>, or \<open>CO\<close> followed by the year, the semester
  and \<open>j\<close> twice when the header has no token there; its credit hours are the value of
  the 4th character of the code when that is a digit from 1 to 9, and 2 otherwise (a
  shorter code, another character, or the digit 0).
\<close>

theorem course_code_and_creditHours:
  assumes "parseResultText text sem yr = Inr results" and "r \<in> set results" and "k < 5"
  shows "code (courses r ! k) =
           (if k + 2 < length (splitColumns (hd (cleanLines text)))
            then splitColumns (hd (cleanLines text)) ! (k + 2)
            else ''CO'' @ decimal yr @ decimal sem @ decimal (k + 2) @ decimal (k + 2)) \<and>
         creditHours (courses r ! k) =
           (if 3 < length (code (courses r ! k)) \<and> isDigit (code (courses r ! k) ! 3) \<and>
               digitOf (code (courses r ! k) ! 3) \<noteq> 0
            then digitOf (code (courses r ! k) ! 3) else 2)"
proof -
  from assms(1,2) obtain l where
    r: "r = rowResult (splitColumns (hd (cleanLines text))) sem yr l"
    by (rule emitted_row)
  let ?h = "splitColumns (hd (cleanLines text))"
  have "k < 7 - (2::nat)" using assms(3) by simp
  then have nth: "map (courseEntry ?h sem yr (splitColumns l)) [2..<7] ! k =
      courseEntry ?h sem yr (splitColumns l) (2 + k)"
    by (rule nth_map_upt)
  have "courses r ! k = map (courseEntry ?h sem yr (splitColumns l)) [2..<7] ! k"
    unfolding r by (simp only: rowResult_courses)
  also note nth
  finally have c: "courses r ! k = courseEntry ?h sem yr (splitColumns l) (k + 2)"
    by (simp add: add.commute)
  have code: "code (courses r ! k) = courseCodeAt ?h sem yr (k + 2)"
    and ch: "creditHours (courses r ! k) = creditHoursOf (code (courses r ! k))"
    by (simp_all add: c courseEntry_def)
  show ?thesis
    using courseCodeAt_eq [of "hd (cleanLines text)" sem yr "k + 2"]
      creditHoursOf_digit [of "code (courses r ! k)"] code ch
    by simp
qed

theorem course_code_and_creditHours_witness:
  "parseResultText ''IndexNo  Name  CO131\<newline>20/COM/001  Jane Doe  A  B+  C  A-  c+'' 1 1 =
     Inr [exampleResult] \<and>
   map (\<lambda>c. (code c, creditHours c)) (courses exampleResult) =
     [(''CO131'', 3), (''CO1133'', 1), (''CO1144'', 1), (''CO1155'', 1), (''CO1166'', 1)]"
  using course_code_and_creditHours
    [of "''IndexNo  Name  CO131\<newline>20/COM/001  Jane Doe  A  B+  C  A-  c+''" 1 1
        "[exampleResult]" exampleResult 0]
    course_code_and_creditHours
    [of "''IndexNo  Name  CO131\<newline>20/COM/001  Jane Doe  A  B+  C  A-  c+''" 1 1
        "[exampleResult]" exampleResult 1]
    sheet_ok
  by (simp add: exampleResult_def)

section \<open>Double arithmetic\<close>

subsection \<open>Evaluation\<close>

lemma floor_rat_numeral: "\<lfloor>(numeral a :: rat) / numeral b\<rfloor> = numeral a div numeral b"
  using floor_divide_of_int_eq [of "numeral a" "numeral b", where ?'a = rat] by simp

lemma ceiling_rat_numeral: "\<lceil>(numeral a :: rat) / numeral b\<rceil> = - (- numeral a div numeral b)"
  using ceiling_divide_eq_div [of "numeral a" "numeral b", where ?'a = rat] by simp

lemma powi_neg: "e < 0 \<Longrightarrow> (2::rat) powi e = 1 / 2 ^ nat (- e)"
  by (simp add: power_int_def field_simps)

lemma powi_nonneg: "0 \<le> e \<Longrightarrow> (2::rat) powi e = 2 ^ nat e"
  by (simp add: power_int_def)

lemma roundDouble_eval:
  "roundDouble x =
     (if x = 0 then 0
      else let e = max (expo \<bar>x\<bar>) (- 1022)
           in if 52 \<le> e
              then sgn x * (of_int (roundEven (\<bar>x\<bar> / 2 ^ nat (e - 52))) * 2 ^ nat (e - 52))
              else sgn x * (of_int (roundEven (\<bar>x\<bar> * 2 ^ nat (52 - e))) / 2 ^ nat (52 - e)))"
  by (simp add: roundDouble_def Let_def powi_neg powi_nonneg)

lemmas double_eval = roundDouble_eval expo_def roundEven_def compute_bitlen
  floor_rat_numeral ceiling_rat_numeral Let_def fadd_def fdiv_def parseFloat_def toFixed2_def

subsection \<open>Rounding to the nearest double is monotone\<close>

lemma expo_bounds:
  assumes "0 < x"
  shows "2 powi expo x \<le> x \<and> x < 2 powi (expo x + 1)"
proof (cases "1 \<le> x")
  case True
  let ?n = "\<lfloor>x\<rfloor>"
  from True have n: "0 < ?n" by simp
  from bitlen_bounds [OF n] have lo: "2 ^ nat (bitlen ?n - 1) \<le> ?n" and hi: "?n < 2 ^ nat (bitlen ?n)"
    by simp_all
  from n have b: "1 \<le> bitlen ?n" by (simp add: bitlen_alt_def)
  have e: "expo x = bitlen ?n - 1" using True by (simp add: expo_def)
  have "(2::rat) powi (bitlen ?n - 1) = of_int (2 ^ nat (bitlen ?n - 1))"
    using b by (simp add: power_int_def)
  also have "\<dots> \<le> of_int ?n" using lo by (simp only: of_int_le_iff)
  also have "\<dots> \<le> x" by simp
  finally have 1: "2 powi expo x \<le> x" by (simp only: e)
  from hi have "?n + 1 \<le> 2 ^ nat (bitlen ?n)" by simp
  then have "(of_int (?n + 1) :: rat) \<le> of_int (2 ^ nat (bitlen ?n))" by (simp only: of_int_le_iff)
  moreover have "x < of_int (?n + 1)" by linarith
  ultimately have "x < of_int (2 ^ nat (bitlen ?n))" by simp
  also have "(of_int (2 ^ nat (bitlen ?n)) :: rat) = 2 powi (expo x + 1)"
    using b by (simp add: e power_int_def)
  finally show ?thesis using 1 by simp
next
  case False
  with assms have x1: "x < 1" by simp
  let ?k = "\<lceil>1 / x\<rceil> - 1"
  let ?m = "bitlen ?k"
  from assms x1 have "1 < 1 / x" by simp
  then have k: "0 < ?k" by linarith
  from bitlen_bounds [OF k] have lo: "2 ^ nat (?m - 1) \<le> ?k" and hi: "?k < 2 ^ nat ?m"
    by simp_all
  from k have m: "1 \<le> ?m" by (simp add: bitlen_alt_def)
  have e: "expo x = - ?m" using False by (simp add: expo_def)
  have klt: "of_int ?k < 1 / x" by linarith
  have kge: "1 / x \<le> of_int (?k + 1)" by simp
  from hi have "?k + 1 \<le> 2 ^ nat ?m" by simp
  then have "(of_int (?k + 1) :: rat) \<le> of_int (2 ^ nat ?m)" by (simp only: of_int_le_iff)
  with kge have "1 / x \<le> of_int (2 ^ nat ?m)" by (rule order_trans)
  then have "1 / x \<le> 2 ^ nat ?m" by simp
  with assms have "1 / 2 ^ nat ?m \<le> x" by (simp add: field_simps)
  moreover have "(2::rat) powi (- ?m) = 1 / 2 ^ nat ?m"
    using m by (simp add: power_int_def field_simps)
  ultimately have 1: "2 powi expo x \<le> x" by (simp only: e)
  from lo have "(of_int (2 ^ nat (?m - 1)) :: rat) \<le> of_int ?k" by (simp only: of_int_le_iff)
  then have "(of_int (2 ^ nat (?m - 1)) :: rat) < 1 / x" using klt by (rule le_less_trans)
  then have "2 ^ nat (?m - 1) < 1 / x" by simp
  with assms have "x < 1 / 2 ^ nat (?m - 1)" by (simp add: field_simps)
  moreover have "(2::rat) powi (- ?m + 1) = 1 / 2 ^ nat (?m - 1)"
  proof (cases "?m = 1")
    case True
    then show ?thesis by simp
  next
    case False
    with m have "- ?m + 1 < 0" by simp
    moreover have "nat (- (- ?m + 1)) = nat (?m - 1)" by simp
    ultimately show ?thesis by (simp add: power_int_def field_simps)
  qed
  ultimately have "x < 2 powi (expo x + 1)" by (simp only: e)
  with 1 show ?thesis by simp
qed

lemma expo_mono:
  assumes "0 < x" and "x \<le> y"
  shows "expo x \<le> expo y"
proof -
  from assms have y: "0 < y" by simp
  from expo_bounds [OF assms(1)] expo_bounds [OF y] assms(2)
  have "(2::rat) powi expo x < 2 powi (expo y + 1)" by linarith
  then have "expo x < expo y + 1"
    by (metis one_less_numeral_iff power_int_increasing less_imp_le semiring_norm(76) not_le)
  then show ?thesis by simp
qed

lemma roundEven_of_int: "roundEven (of_int k) = k"
  by (simp add: roundEven_def)

lemma roundEven_range: "\<lfloor>q\<rfloor> \<le> roundEven q \<and> roundEven q \<le> \<lfloor>q\<rfloor> + 1"
  by (simp add: roundEven_def Let_def)

lemma roundEven_mono:
  assumes "q \<le> q'"
  shows "roundEven q \<le> roundEven q'"
proof (cases "\<lfloor>q\<rfloor> = \<lfloor>q'\<rfloor>")
  case True
  with assms have "q - of_int \<lfloor>q\<rfloor> \<le> q' - of_int \<lfloor>q'\<rfloor>" by simp
  with True show ?thesis by (auto simp: roundEven_def Let_def)
next
  case False
  moreover from assms have "\<lfloor>q\<rfloor> \<le> \<lfloor>q'\<rfloor>" by (rule floor_mono)
  ultimately have "\<lfloor>q\<rfloor> + 1 \<le> \<lfloor>q'\<rfloor>" by simp
  with roundEven_range [of q] roundEven_range [of q'] show ?thesis by linarith
qed


lemma powi_times: "(2::rat) powi a * 2 powi b = 2 powi (a + b)"
  by (simp add: power_int_add)

lemma powi_binade:
  "(of_int (2 ^ 53) :: rat) * 2 powi (e - 52) = 2 powi (e + 1)"
  "(of_int (2 ^ 52) :: rat) * 2 powi (e - 52) = 2 powi e"
proof -
  have "(of_int (2 ^ 53) :: rat) * 2 powi (e - 52) = 2 powi 53 * 2 powi (e - 52)" by simp
  also have "\<dots> = 2 powi (53 + (e - 52))" by (rule powi_times)
  finally show "(of_int (2 ^ 53) :: rat) * 2 powi (e - 52) = 2 powi (e + 1)"
    by (simp add: add.commute)
  have "(of_int (2 ^ 52) :: rat) * 2 powi (e - 52) = 2 powi 52 * 2 powi (e - 52)" by simp
  also have "\<dots> = 2 powi (52 + (e - 52))" by (rule powi_times)
  finally show "(of_int (2 ^ 52) :: rat) * 2 powi (e - 52) = 2 powi e" by simp
qed

lemma roundDouble_pos:
  "0 < x \<Longrightarrow>
   roundDouble x =
     of_int (roundEven (x / 2 powi (max (expo x) (- 1022) - 52))) * 2 powi (max (expo x) (- 1022) - 52)"
  by (simp add: roundDouble_def Let_def)

lemma roundDouble_minus: "roundDouble (- x) = - roundDouble x"
  by (simp add: roundDouble_def Let_def sgn_minus)

lemma roundDouble_nonneg: "0 \<le> x \<Longrightarrow> 0 \<le> roundDouble x"
proof (cases "x = 0")
  case True
  then show ?thesis by (simp add: roundDouble_def)
next
  case False
  assume "0 \<le> x"
  with False have x: "0 < x" by simp
  let ?u = "(2::rat) powi (max (expo x) (- 1022) - 52)"
  have u: "0 < ?u" by simp
  with x have "0 \<le> x / ?u" by simp
  then have "0 \<le> \<lfloor>x / ?u\<rfloor>" by simp
  with roundEven_range [of "x / ?u"] have "0 \<le> roundEven (x / ?u)" by linarith
  with u show ?thesis by (simp add: roundDouble_pos [OF x])
qed

lemma roundDouble_mono_pos:
  assumes x: "0 < x" and xy: "x \<le> y"
  shows "roundDouble x \<le> roundDouble y"
proof -
  from assms have y: "0 < y" by simp
  let ?ex = "max (expo x) (- 1022)" and ?ey = "max (expo y) (- 1022)"
  let ?ux = "(2::rat) powi (?ex - 52)" and ?uy = "(2::rat) powi (?ey - 52)"
  have ux: "0 < ?ux" and uy: "0 < ?uy" by simp_all
  from expo_mono [OF x xy] have le: "?ex \<le> ?ey" by simp
  show ?thesis
  proof (cases "?ex = ?ey")
    case True
    from xy ux have "x / ?ux \<le> y / ?ux" by (simp add: divide_right_mono)
    then have "roundEven (x / ?ux) \<le> roundEven (y / ?ux)" by (rule roundEven_mono)
    then have "(of_int (roundEven (x / ?ux)) :: rat) \<le> of_int (roundEven (y / ?ux))"
      by (simp only: of_int_le_iff)
    with ux have "of_int (roundEven (x / ?ux)) * ?ux \<le> of_int (roundEven (y / ?ux)) * ?ux"
      by (simp add: mult_right_mono)
    then show ?thesis
      unfolding roundDouble_pos [OF x] roundDouble_pos [OF y] True [symmetric] .
  next
    case False
    from le False have lt: "?ex < ?ey" by (rule le_neq_trans)
    then have ey: "?ey = expo y" by linarith
    \<comment> \<open>the rounded \<open>x\<close> stays within its binade, closed above\<close>
    have "x < 2 powi (expo x + 1)" using expo_bounds [OF x] by simp
    also have "\<dots> \<le> 2 powi (?ex + 1)" by (rule power_int_increasing) simp_all
    finally have "x / ?ux < 2 powi (?ex + 1) / ?ux" using ux by (simp add: divide_strict_right_mono)
    also have "2 powi (?ex + 1) / ?ux = (2::rat) powi 53"
      by (simp flip: power_int_diff)
    finally have "x / ?ux \<le> of_int (2 ^ 53)" by simp
    then have "roundEven (x / ?ux) \<le> roundEven (of_int (2 ^ 53))" by (rule roundEven_mono)
    then have "(of_int (roundEven (x / ?ux)) :: rat) \<le> of_int (2 ^ 53)"
      by (simp only: roundEven_of_int of_int_le_iff)
    with ux have "of_int (roundEven (x / ?ux)) * ?ux \<le> of_int (2 ^ 53) * ?ux"
      by (simp only: mult_right_mono less_imp_le)
    also have "of_int (2 ^ 53) * ?ux = 2 powi (?ex + 1)" by (rule powi_binade)
    finally have up: "roundDouble x \<le> 2 powi (?ex + 1)" by (simp only: roundDouble_pos [OF x])
    \<comment> \<open>the rounded \<open>y\<close> does not fall below its binade\<close>
    have "(2::rat) powi ?ey \<le> y" using expo_bounds [OF y] by (simp only: ey)
    then have "2 powi ?ey / ?uy \<le> y / ?uy" using uy by (simp add: divide_right_mono)
    moreover have "2 powi ?ey / ?uy = (2::rat) powi 52" by (simp flip: power_int_diff)
    ultimately have "of_int (2 ^ 52) \<le> y / ?uy" by simp
    then have "roundEven (of_int (2 ^ 52)) \<le> roundEven (y / ?uy)" by (rule roundEven_mono)
    then have "(of_int (2 ^ 52) :: rat) \<le> of_int (roundEven (y / ?uy))"
      by (simp only: roundEven_of_int of_int_le_iff)
    with uy have "of_int (2 ^ 52) * ?uy \<le> of_int (roundEven (y / ?uy)) * ?uy"
      by (simp only: mult_right_mono less_imp_le)
    moreover have "of_int (2 ^ 52) * ?uy = 2 powi ?ey" by (rule powi_binade)
    ultimately have lo: "2 powi ?ey \<le> roundDouble y" by (simp only: roundDouble_pos [OF y])
    from lt have "?ex + 1 \<le> ?ey" by linarith
    then have "(2::rat) powi (?ex + 1) \<le> 2 powi ?ey" by (rule power_int_increasing) simp
    with up lo show ?thesis by linarith
  qed
qed

lemma roundDouble_mono:
  assumes "x \<le> y"
  shows "roundDouble x \<le> roundDouble y"
proof -
  consider "0 < x" | "x \<le> 0" "0 \<le> y" | "y < 0" by linarith
  then show ?thesis
  proof cases
    case 1
    then show ?thesis using assms by (rule roundDouble_mono_pos)
  next
    case 2
    then have "0 \<le> roundDouble y" and "0 \<le> roundDouble (- x)"
      by (simp_all add: roundDouble_nonneg)
    then show ?thesis by (simp add: roundDouble_minus)
  next
    case 3
    with assms have "0 < - y" and "- y \<le> - x" by simp_all
    then have "roundDouble (- y) \<le> roundDouble (- x)" by (rule roundDouble_mono_pos)
    then show ?thesis by (simp add: roundDouble_minus)
  qed
qed


section \<open>The aggregator\<close>

subsection \<open>Grouping and enumeration\<close>

lemma firstSeen_snoc:
  "firstSeen (xs @ [x]) = (if x \<in> set xs then firstSeen xs else firstSeen xs @ [x])"
  by (simp add: firstSeen_def)

lemma set_firstSeen: "set (firstSeen xs) = set xs"
  by (simp add: firstSeen_def)

lemma distinct_firstSeen: "distinct (firstSeen xs)"
  by (simp add: firstSeen_def)

lemma pushTo_map:
  "distinct ks \<Longrightarrow>
   pushTo k v (map (\<lambda>k'. (k', h k')) ks) =
     (if k \<in> set ks then map (\<lambda>k'. (k', if k' = k then h k' @ [v] else h k')) ks
      else map (\<lambda>k'. (k', h k')) ks @ [(k, [v])])"
  by (induction ks) auto

lemma groupsOf_snoc: "pushTo (f r) r (groupsOf f rs) = groupsOf f (rs @ [r])"
proof -
  let ?ks = "firstSeen (map f rs)"
  have d: "distinct ?ks" by (rule distinct_firstSeen)
  show ?thesis
  proof (cases "f r \<in> set (map f rs)")
    case True
    then have "f r \<in> set ?ks" by (simp only: set_firstSeen)
    then have "pushTo (f r) r (groupsOf f rs) =
        map (\<lambda>k'. (k', if k' = f r then filter (\<lambda>x. f x = k') rs @ [r] else filter (\<lambda>x. f x = k') rs)) ?ks"
      unfolding groupsOf_def by (simp only: pushTo_map [OF d] if_True)
    also have "\<dots> = map (\<lambda>k'. (k', filter (\<lambda>x. f x = k') (rs @ [r]))) ?ks"
      by (rule map_cong) auto
    also have "\<dots> = groupsOf f (rs @ [r])"
      using True by (simp add: groupsOf_def firstSeen_snoc)
    finally show ?thesis .
  next
    case False
    then have nin: "f r \<notin> set ?ks" by (simp only: set_firstSeen not_False_eq_True)
    then have "pushTo (f r) r (groupsOf f rs) =
        map (\<lambda>k'. (k', filter (\<lambda>x. f x = k') rs)) ?ks @ [(f r, [r])]"
      unfolding groupsOf_def by (simp only: pushTo_map [OF d] if_False)
    also have "map (\<lambda>k'. (k', filter (\<lambda>x. f x = k') rs)) ?ks =
        map (\<lambda>k'. (k', filter (\<lambda>x. f x = k') (rs @ [r]))) ?ks"
      using nin by (intro map_cong) auto
    also have "[(f r, [r])] = [(f r, filter (\<lambda>x. f x = f r) (rs @ [r]))]"
      using False by (force simp: filter_empty_conv image_iff)
    finally show ?thesis
      using False by (simp add: groupsOf_def firstSeen_snoc)
  qed
qed

lemma foldl_pushTo: "foldl (\<lambda>obj r. pushTo (f r) r obj) [] rs = groupsOf f rs"
proof (induction rs rule: rev_induct)
  case Nil
  show ?case by (simp add: groupsOf_def firstSeen_def)
next
  case (snoc r rs)
  then show ?case by (simp add: groupsOf_snoc)
qed

lemma groupByYear_eq: "groupByYear rs = groupsOf year rs"
  unfolding groupByYear_def by (rule foldl_pushTo)

lemma groupByStudent_eq:
  "groupByStudent rs obj =
     (if list_ex (\<lambda>r. indexNo r \<in> set inheritedKeys) rs then Inl TypeError
      else Inr (foldl (\<lambda>obj r. pushTo (indexNo r) r obj) obj rs))"
  by (induction rs arbitrary: obj) simp_all

lemma groupByStudent_groups:
  "groupByStudent store [] =
     (if inheritedIndexNo store then Inl TypeError else Inr (groupsOf indexNo store))"
  by (simp only: groupByStudent_eq foldl_pushTo inheritedIndexNo_def)

lemma distinct_keys_groupsOf: "distinct (map fst (groupsOf f rs))"
  by (simp add: groupsOf_def comp_def distinct_firstSeen)

lemma keys_groupsOf: "fst ` set (groupsOf f rs) = f ` set rs"
  by (simp add: groupsOf_def image_comp comp_def set_firstSeen)

lemma map_of_groupsOf:
  "map_of (groupsOf f rs) k = (if k \<in> f ` set rs then Some (filter (\<lambda>r. f r = k) rs) else None)"
proof -
  have "map_of (map (\<lambda>k. (k, h k)) ks) k = (if k \<in> set ks then Some (h k) else None)" for h :: "'b \<Rightarrow> 'a list" and ks
    by (induction ks) auto
  then show ?thesis by (simp add: groupsOf_def set_firstSeen)
qed

lemma mset_objectEntries: "mset (objectEntries idx obj) = mset obj"
proof -
  have "mset (objectEntries idx obj) =
      filter_mset (\<lambda>x. idx (fst x) \<noteq> None) (mset obj) +
      filter_mset (\<lambda>x. \<not> idx (fst x) \<noteq> None) (mset obj)"
    by (simp add: objectEntries_def case_prod_unfold)
  also have "\<dots> = mset obj" by (rule multiset_partition [symmetric])
  finally show ?thesis .
qed

lemma set_objectEntries: "set (objectEntries idx obj) = set obj"
  using mset_objectEntries [of idx obj] by (rule mset_eq_setD)

lemma distinct_keys_objectEntries:
  "distinct (map fst (objectEntries idx obj)) \<longleftrightarrow> distinct (map fst obj)"
proof -
  have "mset (map fst (objectEntries idx obj)) = mset (map fst obj)"
    by (simp only: mset_map mset_objectEntries)
  then show ?thesis by (rule mset_eq_imp_distinct_iff)
qed

lemma map_of_objectEntries:
  assumes "distinct (map fst obj)"
  shows "map_of (objectEntries idx obj) = map_of obj"
  using assms by (simp add: map_of_inject_set distinct_keys_objectEntries set_objectEntries)


subsection \<open>The loop over the years in closed form\<close>

lemma assign_fresh: "k \<notin> fst ` set obj \<Longrightarrow> assign k v obj = obj @ [(k, v)]"
  by (induction obj) auto

lemma yearLoop_eq:
  "distinct (map fst es) \<Longrightarrow> fst ` set ys \<inter> fst ` set es = {} \<Longrightarrow>
   yearLoop es (ys, t, n) =
     (ys @ map (\<lambda>(y, g). (y, parseFloat (toFixed2 (groupMean g)))) es,
      foldl fadd t (map (\<lambda>(y, g). groupMean g) es),
      n + length es)"
proof (induction es arbitrary: ys t n)
  case Nil
  show ?case by simp
next
  case (Cons e es)
  obtain y g where e: "e = (y, g)" by (cases e)
  from Cons.prems e have fresh: "y \<notin> fst ` set ys" and d: "distinct (map fst es)"
    and disj: "fst ` set (ys @ [(y, parseFloat (toFixed2 (groupMean g)))]) \<inter> fst ` set es = {}"
    by auto
  have m: "fdiv (foldl (\<lambda>sum r. fadd sum (semesterGPA r)) 0 g) (of_nat (length g)) = groupMean g"
    by (simp add: groupMean_def fsum_def foldl_map)
  show ?case
    unfolding e yearLoop.simps Let_def m assign_fresh [OF fresh] Cons.IH [OF d disj]
    by simp
qed

lemma studentAggregate_entries:
  "studentAggregate rs =
     (let es = objectEntries yearIndex (groupsOf year rs);
          g = parseFloat (toFixed2
                (fdiv (fsum (map (\<lambda>(y, g). groupMean g) es)) (of_nat (length es))))
      in \<lparr>newYearGPA = map (\<lambda>(y, g). (y, parseFloat (toFixed2 (groupMean g)))) es,
          newFinalGPA = g, newFinalClass = classify g\<rparr>)"
proof -
  let ?es = "objectEntries yearIndex (groupsOf year rs)"
  have d: "distinct (map fst ?es)"
    by (simp only: distinct_keys_objectEntries distinct_keys_groupsOf)
  from yearLoop_eq [OF d, of "[]" 0 0] show ?thesis
    by (simp add: studentAggregate_def groupByYear_eq Let_def fsum_def)
qed

lemma finalClass_classify:
  "newFinalClass (studentAggregate rs) = classify (newFinalGPA (studentAggregate rs))"
  by (simp add: studentAggregate_entries Let_def)

lemma entries_filter:
  "objectEntries idx (groupsOf f rs) =
     map (\<lambda>k. (k, filter (\<lambda>r. f r = k) rs)) (map fst (objectEntries idx (groupsOf f rs)))"
proof -
  have "\<forall>e \<in> set (objectEntries idx (groupsOf f rs)). e = (fst e, filter (\<lambda>r. f r = fst e) rs)"
    by (auto simp: set_objectEntries groupsOf_def)
  then have "map (\<lambda>e. (fst e, filter (\<lambda>r. f r = fst e) rs)) (objectEntries idx (groupsOf f rs)) =
             objectEntries idx (groupsOf f rs)"
    by (simp add: map_idI)
  then show ?thesis by (simp add: comp_def)
qed

lemma studentAggregate_years:
  "studentAggregate rs =
     \<lparr>newYearGPA = map (\<lambda>y. (y, parseFloat (toFixed2 (yearMean rs y)))) (yearsOf rs),
      newFinalGPA =
        parseFloat (toFixed2
          (fdiv (fsum (map (yearMean rs) (yearsOf rs))) (of_nat (length (yearsOf rs))))),
      newFinalClass =
        classify (parseFloat (toFixed2
          (fdiv (fsum (map (yearMean rs) (yearsOf rs))) (of_nat (length (yearsOf rs))))))\<rparr>"
proof -
  let ?es = "objectEntries yearIndex (groupsOf year rs)"
  have es: "?es = map (\<lambda>y. (y, filter (\<lambda>r. year r = y) rs)) (yearsOf rs)"
    unfolding yearsOf_def groupByYear_eq by (rule entries_filter)
  have 1: "map (\<lambda>(y, g). groupMean g) ?es = map (yearMean rs) (yearsOf rs)"
    by (subst es) (simp add: comp_def yearMean_def)
  have 2: "map (\<lambda>(y, g). (y, parseFloat (toFixed2 (groupMean g)))) ?es =
           map (\<lambda>y. (y, parseFloat (toFixed2 (yearMean rs y)))) (yearsOf rs)"
    by (subst es) (simp add: comp_def yearMean_def)
  have 3: "length ?es = length (yearsOf rs)" by (simp add: yearsOf_def groupByYear_eq)
  show ?thesis unfolding studentAggregate_entries Let_def 1 2 3 ..
qed

subsection \<open>The years of a student\<close>

lemma length_objectEntries: "length (objectEntries idx obj) = length obj"
  using mset_objectEntries [of idx obj] by (rule mset_eq_length)

lemma length_groupsOf: "length (groupsOf f rs) = card (f ` set rs)"
proof -
  have "length (groupsOf f rs) = length (firstSeen (map f rs))" by (simp add: groupsOf_def)
  also have "\<dots> = card (set (firstSeen (map f rs)))"
    by (rule distinct_card [symmetric]) (rule distinct_firstSeen)
  finally show ?thesis by (simp add: set_firstSeen)
qed

lemma distinct_yearsOf: "distinct (yearsOf rs)"
  unfolding yearsOf_def groupByYear_eq
  by (simp only: distinct_keys_objectEntries distinct_keys_groupsOf)

lemma set_yearsOf: "set (yearsOf rs) = year ` set rs"
  by (simp add: yearsOf_def groupByYear_eq set_objectEntries keys_groupsOf)

lemma length_yearsOf: "length (yearsOf rs) = card (year ` set rs)"
  by (simp add: yearsOf_def groupByYear_eq length_objectEntries length_groupsOf)

lemma yearsOf_nonempty: "rs \<noteq> [] \<Longrightarrow> yearsOf rs \<noteq> []"
  using set_yearsOf [of rs] by (cases rs) auto

lemma insort_key_cong_on:
  "f x = g x \<Longrightarrow> \<forall>y \<in> set ys. f y = g y \<Longrightarrow> insort_key f x ys = insort_key g x ys"
  by (induction ys) simp_all

lemma sort_key_cong_on: "\<forall>x \<in> set xs. f x = g x \<Longrightarrow> sort_key f xs = sort_key g xs"
proof (induction xs)
  case Nil
  show ?case by simp
next
  case (Cons x xs)
  then have "sort_key f xs = sort_key g xs" by simp
  moreover from Cons.prems have "insort_key f x (sort_key g xs) = insort_key g x (sort_key g xs)"
    by (intro insort_key_cong_on) simp_all
  ultimately show ?case by simp
qed

lemma insort_key_map:
  "insort_key f (h x) (map h xs) = map h (insort_key (\<lambda>a. f (h a)) x xs)"
  by (induction xs) simp_all

lemma sort_key_map: "sort_key f (map h xs) = map h (sort_key (\<lambda>a. f (h a)) xs)"
  by (induction xs) (simp_all add: insort_key_map)

lemma yearsOf_ascending:
  assumes "list_all (\<lambda>r. year r < 4294967295) rs"
  shows "yearsOf rs = sorted_list_of_set (year ` set rs)"
proof -
  let ?ks = "firstSeen (map year rs)"
  let ?h = "\<lambda>k. (k, filter (\<lambda>r. year r = k) rs)"
  from assms have small: "\<forall>k \<in> set ?ks. k < 4294967295"
    by (auto simp: set_firstSeen list_all_iff)
  then have all: "filter (\<lambda>(k, v). yearIndex k \<noteq> None) (map ?h ?ks) = map ?h ?ks"
    and none: "filter (\<lambda>(k, v). yearIndex k = None) (map ?h ?ks) = []"
    by (auto simp: yearIndex_def filter_empty_conv)
  have "yearsOf rs = map fst (sort_key (\<lambda>(k, v). the (yearIndex k)) (map ?h ?ks))"
    by (simp only: yearsOf_def groupByYear_eq objectEntries_def groupsOf_def all none
          append_Nil2)
  also have "\<dots> = sort_key (\<lambda>k. the (yearIndex k)) ?ks"
    by (simp add: sort_key_map comp_def)
  also have "\<dots> = sort_key (\<lambda>k. k) ?ks"
    by (rule sort_key_cong_on) (use small in \<open>simp add: yearIndex_def\<close>)
  also have "\<dots> = sorted_list_of_set (set ?ks)"
    by (simp add: sorted_list_of_set_sort_remdups distinct_remdups_id [OF distinct_firstSeen])
  finally show ?thesis by (simp add: set_firstSeen)
qed

subsection \<open>Documents that differ in fields which the aggregator does not read\<close>

lemma objectEntries_map_value:
  "objectEntries idx (map (\<lambda>(k, v). (k, h v)) obj) = map (\<lambda>(k, v). (k, h v)) (objectEntries idx obj)"
  by (simp add: objectEntries_def filter_map sort_key_map comp_def case_prod_unfold)

lemma groupsOf_map:
  assumes "\<And>r. f (g r) = f r"
  shows "groupsOf f (map g rs) = map (\<lambda>(k, v). (k, map g v)) (groupsOf f rs)"
proof -
  have keys: "map (\<lambda>x. f (g x)) rs = map f rs" by (simp add: assms)
  have "filter (\<lambda>r. f r = k) (map g rs) = map g (filter (\<lambda>r. f r = k) rs)" for k
    by (simp add: filter_map comp_def assms)
  then show ?thesis by (simp add: groupsOf_def keys comp_def)
qed

lemma groupMean_map:
  assumes "\<And>r. semesterGPA (g r) = semesterGPA r"
  shows "groupMean (map g v) = groupMean v"
  by (simp add: groupMean_def comp_def assms)

lemma studentAggregate_map:
  assumes "\<And>r. year (g r) = year r" and "\<And>r. semesterGPA (g r) = semesterGPA r"
  shows "studentAggregate (map g rs) = studentAggregate rs"
proof -
  have ys: "yearsOf (map g rs) = yearsOf rs"
    unfolding yearsOf_def groupByYear_eq groupsOf_map [of year g, OF assms(1)]
      objectEntries_map_value
    by (simp add: comp_def case_prod_unfold)
  have "filter (\<lambda>r. year r = y) (map g rs) = map g (filter (\<lambda>r. year r = y) rs)" for y
    by (simp add: filter_map comp_def assms(1))
  then have ym: "yearMean (map g rs) = yearMean rs"
    by (simp add: yearMean_def fun_eq_iff groupMean_map [of g, OF assms(2)])
  show ?thesis by (simp only: studentAggregate_years ys ym)
qed

lemma aggregateOf_map:
  assumes "\<And>r. indexNo (g r) = indexNo r" and "\<And>r. year (g r) = year r"
    and "\<And>r. semesterGPA (g r) = semesterGPA r"
  shows "aggregateOf (map g store) s = aggregateOf store s"
proof -
  have "filter (\<lambda>r. indexNo r = s) (map g store) = map g (filter (\<lambda>r. indexNo r = s) store)"
    by (simp add: filter_map comp_def assms(1))
  then show ?thesis
    unfolding aggregateOf_def by (simp only: studentAggregate_map [of g, OF assms(2,3)])
qed

lemma aggregateOf_recordsOf: "aggregateOf store s = studentAggregate (recordsOf store s)"
  by (simp add: aggregateOf_def recordsOf_def)

lemma recordsOf_nonempty: "s \<in> indexNo ` set store \<Longrightarrow> recordsOf store s \<noteq> []"
  by (auto simp: recordsOf_def filter_empty_conv)

lemma studentAggregate_pairs:
  "studentAggregate rs =
     studentAggregate (map (\<lambda>(y, g). document [] y g) (map (\<lambda>r. (year r, semesterGPA r)) rs))"
proof -
  have "studentAggregate (map (\<lambda>r. document [] (year r) (semesterGPA r)) rs) = studentAggregate rs"
    by (rule studentAggregate_map) (simp_all add: document_def)
  then show ?thesis by (simp add: comp_def)
qed

lemma aggregateOf_pairs:
  "aggregateOf store s = studentAggregate (map (\<lambda>(y, g). document [] y g) (pairsOf store s))"
  unfolding aggregateOf_def pairsOf_def by (rule studentAggregate_pairs)

subsection \<open>The outcome of a request\<close>

lemma upperChar_not_lower: "upperChar c \<notin> set ''abcdefghijklmnopqrstuvwxyz''"
  by (simp add: upperChar_def)

lemma upper_not_inherited: "toUpperCase s \<notin> set inheritedKeys"
proof
  assume a: "toUpperCase s \<in> set inheritedKeys"
  have "\<forall>c \<in> set (toUpperCase s). c \<notin> set ''abcdefghijklmnopqrstuvwxyz''"
    using upperChar_not_lower by (auto simp: toUpperCase_def simp del: set_simps)
  moreover have "\<forall>k \<in> set inheritedKeys. \<exists>c \<in> set k. c \<in> set ''abcdefghijklmnopqrstuvwxyz''"
    by (simp add: inheritedKeys_def)
  ultimately show False using a by blast
qed

lemma students_visited:
  assumes "groupByStudent store [] = Inr students"
    and "(s, rs) \<in> set (objectEntries arrayIndex students)"
  shows "rs = recordsOf store s \<and> rs \<noteq> [] \<and> studentAggregate rs = aggregateOf store s"
proof -
  from assms(1) have st: "students = groupsOf indexNo store"
    by (simp add: groupByStudent_groups split: if_splits)
  with assms(2) have "(s, rs) \<in> set (groupsOf indexNo store)" by (simp add: set_objectEntries)
  then have "s \<in> indexNo ` set store" and "rs = filter (\<lambda>r. indexNo r = s) store"
    by (auto simp: groupsOf_def set_firstSeen)
  then show ?thesis by (auto simp: aggregateOf_def recordsOf_def filter_empty_conv)
qed

lemma updateMany_fails: "updateMany k a store = Inl CastError"
  by (simp add: updateMany_def castNumber_def)

lemma studentLoop_eq:
  "studentLoop es store = (if es = [] then (None, store) else (Some CastError, store))"
  by (cases es) (auto simp: updateMany_fails)

lemma groupsOf_empty: "groupsOf f rs = [] \<longleftrightarrow> rs = []"
proof -
  have "length (groupsOf f rs) = 0 \<longleftrightarrow> rs = []" by (simp add: length_groupsOf)
  then show ?thesis by simp
qed

lemma objectEntries_empty: "objectEntries idx obj = [] \<longleftrightarrow> obj = []"
proof -
  have "length (objectEntries idx obj) = 0 \<longleftrightarrow> obj = []" by (simp add: length_objectEntries)
  then show ?thesis by simp
qed

lemma calculateFinal_eq:
  "calculateFinal store =
     (if inheritedIndexNo store then (Some TypeError, store)
      else if store = [] then (None, store)
      else (Some CastError, store))"
  by (simp add: calculateFinal_def groupByStudent_groups studentLoop_eq objectEntries_empty
        groupsOf_empty)

lemma recalculateAll_eq: "recalculateAll store = store"
  by (simp add: recalculateAll_def calculateFinal_eq)

subsection \<open>The class of a final GPA of 2 decimal places\<close>

lemma toFixed2_hundredths: "\<exists>n. toFixed2 x = of_int n / 100"
proof (cases "x < 0")
  case True
  then have "toFixed2 x = of_int (- \<lfloor>- x * 100 + 1 / 2\<rfloor>) / 100" by (simp add: toFixed2_def)
  then show ?thesis ..
next
  case False
  then have "toFixed2 x = of_int \<lfloor>x * 100 + 1 / 2\<rfloor> / 100" by (simp add: toFixed2_def)
  then show ?thesis ..
qed

lemma roundDouble_hundredths_le:
  "m \<le> n \<Longrightarrow> roundDouble (of_int m / 100) \<le> roundDouble (of_int n / 100)"
  by (rule roundDouble_mono) (simp add: divide_right_mono)

lemma thresholds_eval:
  "roundDouble (369 / 100) < roundDouble (37 / 10)"
  "roundDouble (329 / 100) < roundDouble (33 / 10)"
  "roundDouble (299 / 100) < roundDouble 3"
  by (simp_all add: double_eval)

lemma classify_hundredths:
  "classify (parseFloat (of_int n / 100)) =
     (if 370 \<le> n then ''First Class''
      else if 330 \<le> n then ''Second Upper Class''
      else if 300 \<le> n then ''Second Lower Class''
      else ''Just Pass'')"
proof -
  let ?g = "roundDouble (of_int n / 100)"
  have up: "roundDouble (of_int m / 100) \<le> ?g" if "m \<le> n" for m
    using that by (rule roundDouble_hundredths_le)
  have down: "?g \<le> roundDouble (of_int m / 100)" if "n \<le> m" for m
    using that by (rule roundDouble_hundredths_le)
  have a: "roundDouble (37 / 10) \<le> ?g \<longleftrightarrow> 370 \<le> n"
  proof
    assume "370 \<le> n"
    from up [OF this] show "roundDouble (37 / 10) \<le> ?g" by simp
  next
    assume h: "roundDouble (37 / 10) \<le> ?g"
    show "370 \<le> n"
    proof (rule ccontr)
      assume "\<not> 370 \<le> n"
      then have "n \<le> 369" by simp
      from down [OF this] have "?g \<le> roundDouble (369 / 100)" by simp
      with h thresholds_eval(1) show False by simp
    qed
  qed
  have b: "roundDouble (33 / 10) \<le> ?g \<longleftrightarrow> 330 \<le> n"
  proof
    assume "330 \<le> n"
    from up [OF this] show "roundDouble (33 / 10) \<le> ?g" by simp
  next
    assume h: "roundDouble (33 / 10) \<le> ?g"
    show "330 \<le> n"
    proof (rule ccontr)
      assume "\<not> 330 \<le> n"
      then have "n \<le> 329" by simp
      from down [OF this] have "?g \<le> roundDouble (329 / 100)" by simp
      with h thresholds_eval(2) show False by simp
    qed
  qed
  have c: "roundDouble 3 \<le> ?g \<longleftrightarrow> 300 \<le> n"
  proof
    assume "300 \<le> n"
    from up [OF this] show "roundDouble 3 \<le> ?g" by simp
  next
    assume h: "roundDouble 3 \<le> ?g"
    show "300 \<le> n"
    proof (rule ccontr)
      assume "\<not> 300 \<le> n"
      then have "n \<le> 299" by simp
      from down [OF this] have "?g \<le> roundDouble (299 / 100)" by simp
      with h thresholds_eval(3) show False by simp
    qed
  qed
  show ?thesis unfolding classify_def parseFloat_def a b c ..
qed

subsection \<open>Evaluation of the aggregator on example stores\<close>

lemmas agg_eval = double_eval
  objectEntries_def yearIndex_def studentAggregate_def groupByYear_def classify_def
  document_def aggregateOf_def recordsOf_def pairsOf_def

lemma three_years:
  "studentAggregate
     [document ''S1'' 1 (roundDouble (89 / 40)), document ''S1'' 2 (23 / 8),
      document ''S1'' 3 (31 / 8)] =
   \<lparr>newYearGPA = [(1, roundDouble (223 / 100)), (2, roundDouble (288 / 100)),
                  (3, roundDouble (388 / 100))],
    newFinalGPA = roundDouble (299 / 100), newFinalClass = ''Just Pass''\<rparr>"
  by (simp add: agg_eval)

lemma boundary_first:
  "studentAggregate
     [document ''S1'' 1 (roundDouble (173 / 50)), document ''S1'' 1 (roundDouble (77 / 20)),
      document ''S1'' 1 (roundDouble (151 / 40))] =
   \<lparr>newYearGPA = [(1, roundDouble (37 / 10))], newFinalGPA = roundDouble (37 / 10),
    newFinalClass = ''First Class''\<rparr>"
  by (simp add: agg_eval)

lemma boundary_second:
  "studentAggregate
     [document ''S1'' 1 (roundDouble (173 / 50)), document ''S1'' 1 (roundDouble (151 / 40)),
      document ''S1'' 1 (roundDouble (77 / 20))] =
   \<lparr>newYearGPA = [(1, roundDouble (369 / 100))], newFinalGPA = roundDouble (369 / 100),
    newFinalClass = ''Second Upper Class''\<rparr>"
  by (simp add: agg_eval)

lemma shuffled_years:
  "yearsOf 
     [document ''S1'' 3 (31 / 8), document ''S1'' 1 (roundDouble (89 / 40)),
      document ''S1'' 2 (23 / 8)] = [1, 2, 3]"
  by (simp add: yearsOf_def groupByYear_def objectEntries_def yearIndex_def document_def)

lemma shuffled_means:
  "yearMean 
     [document ''S1'' 3 (31 / 8), document ''S1'' 1 (roundDouble (89 / 40)),
      document ''S1'' 2 (23 / 8)] 1 = roundDouble (89 / 40)"
  "yearMean 
     [document ''S1'' 3 (31 / 8), document ''S1'' 1 (roundDouble (89 / 40)),
      document ''S1'' 2 (23 / 8)] 2 = 23 / 8"
  "yearMean 
     [document ''S1'' 3 (31 / 8), document ''S1'' 1 (roundDouble (89 / 40)),
      document ''S1'' 2 (23 / 8)] 3 = 31 / 8"
  by (simp_all add: yearMean_def groupMean_def fsum_def document_def double_eval)

lemma shuffled_final:
  "parseFloat (toFixed2 (fdiv (fsum [roundDouble (89 / 40), 23 / 8, 31 / 8]) 3)) =
   roundDouble (299 / 100)"
  by (simp add: fsum_def double_eval)

lemma shuffled_aggregate:
  "studentAggregate 
     [document ''S1'' 3 (31 / 8), document ''S1'' 1 (roundDouble (89 / 40)),
      document ''S1'' 2 (23 / 8)] =
   \<lparr>newYearGPA = [(1, roundDouble (223 / 100)), (2, roundDouble (288 / 100)),
                  (3, roundDouble (388 / 100))],
    newFinalGPA = roundDouble (299 / 100), newFinalClass = ''Just Pass''\<rparr>"
  by (simp add: agg_eval)

lemma indexNo_document: "indexNo (document k y g) = k"
  by (simp add: document_def)

lemma year_document: "year (document k y g) = y"
  by (simp add: document_def)

lemma semesterGPA_document: "semesterGPA (document k y g) = g"
  by (simp add: document_def)

subsection \<open>Claims about the aggregator\<close>

text \<open>
  C3, as stated, fails: the final average is taken over the unrounded yearly means. A
  student has one document in each of the years 1, 2 and 3, with the semester GPAs 2.225,
  2.875 and 3.875 (doubles that the parser produces). The yearly values that the code
  puts into \<open>yearGPAs\<close> are 2.23, 2.88 and 3.88; their mean, rounded to 2 decimal places, is
  3.00, which is \<open>Second Lower Class\<close>; the code computes the final GPA 2.99 and the class
  \<open>Just Pass\<close>.
\<close>

theorem finalGPA_not_mean_of_rounded_year_means:
  "studentAggregate
     [document ''S1'' 1 (roundDouble (89 / 40)), document ''S1'' 2 (23 / 8),
      document ''S1'' 3 (31 / 8)] =
   \<lparr>newYearGPA = [(1, roundDouble (223 / 100)), (2, roundDouble (288 / 100)),
                  (3, roundDouble (388 / 100))],
    newFinalGPA = roundDouble (299 / 100), newFinalClass = ''Just Pass''\<rparr> \<and>
   parseFloat (toFixed2
     (fdiv (fsum [roundDouble (223 / 100), roundDouble (288 / 100), roundDouble (388 / 100)])
        3)) = 3 \<and>
   classify 3 = ''Second Lower Class'' \<and>
   roundDouble (299 / 100) < 3"
  by (simp add: agg_eval fsum_def)

text \<open>
  C3, amended. For a student with at least one document, the final GPA that the
  aggregator computes is the mean, over the distinct years of the student's documents, of
  the unrounded yearly means of \<open>semesterGPA\<close>, rounded to 2 decimal places, all in double
  arithmetic: each yearly mean is the sum of the year's semester GPAs, added in the order
  of the documents, divided by their number; the yearly means are added in the order of
  \<open>yearsOf\<close>, which is ascending for years below 4294967295. \<open>yearGPAs\<close> maps each of those
  years to its yearly mean rounded to 2 decimal places, and these rounded values do not
  enter the final average.
\<close>

theorem finalGPA_mean_of_unrounded_year_means:
  assumes "rs \<noteq> []"
  shows "newFinalGPA (studentAggregate rs) =
           parseFloat (toFixed2
             (fdiv (fsum (map (yearMean rs) (yearsOf rs))) (of_nat (length (yearsOf rs))))) \<and>
         newYearGPA (studentAggregate rs) =
           map (\<lambda>y. (y, parseFloat (toFixed2 (yearMean rs y)))) (yearsOf rs) \<and>
         yearsOf rs \<noteq> [] \<and> distinct (yearsOf rs) \<and> set (yearsOf rs) = year ` set rs \<and>
         (list_all (\<lambda>r. year r < 4294967295) rs \<longrightarrow>
            yearsOf rs = sorted_list_of_set (year ` set rs))"
proof -
  have "newFinalGPA (studentAggregate rs) =
          parseFloat (toFixed2
            (fdiv (fsum (map (yearMean rs) (yearsOf rs))) (of_nat (length (yearsOf rs)))))"
    and "newYearGPA (studentAggregate rs) =
          map (\<lambda>y. (y, parseFloat (toFixed2 (yearMean rs y)))) (yearsOf rs)"
    by (simp_all add: studentAggregate_years)
  moreover from assms have "yearsOf rs \<noteq> []" by (rule yearsOf_nonempty)
  moreover have "distinct (yearsOf rs)" by (rule distinct_yearsOf)
  moreover have "set (yearsOf rs) = year ` set rs" by (rule set_yearsOf)
  moreover have "list_all (\<lambda>r. year r < 4294967295) rs \<longrightarrow>
      yearsOf rs = sorted_list_of_set (year ` set rs)"
    using yearsOf_ascending by blast
  ultimately show ?thesis by blast
qed

theorem finalGPA_mean_of_unrounded_year_means_witness:
  "[document ''S1'' 3 (31 / 8), document ''S1'' 1 (roundDouble (89 / 40)),
      document ''S1'' 2 (23 / 8)] \<noteq> [] \<and>
   list_all (\<lambda>r. year r < 4294967295)
     [document ''S1'' 3 (31 / 8), document ''S1'' 1 (roundDouble (89 / 40)),
      document ''S1'' 2 (23 / 8)] \<and>
   yearsOf
     [document ''S1'' 3 (31 / 8), document ''S1'' 1 (roundDouble (89 / 40)),
      document ''S1'' 2 (23 / 8)] = [1, 2, 3] \<and>
   yearMean
     [document ''S1'' 3 (31 / 8), document ''S1'' 1 (roundDouble (89 / 40)),
      document ''S1'' 2 (23 / 8)] 1 = roundDouble (89 / 40) \<and>
   yearMean
     [document ''S1'' 3 (31 / 8), document ''S1'' 1 (roundDouble (89 / 40)),
      document ''S1'' 2 (23 / 8)] 2 = 23 / 8 \<and>
   yearMean
     [document ''S1'' 3 (31 / 8), document ''S1'' 1 (roundDouble (89 / 40)),
      document ''S1'' 2 (23 / 8)] 3 = 31 / 8 \<and>
   newFinalGPA (studentAggregate
     [document ''S1'' 3 (31 / 8), document ''S1'' 1 (roundDouble (89 / 40)),
      document ''S1'' 2 (23 / 8)]) =
     parseFloat (toFixed2 (fdiv (fsum [roundDouble (89 / 40), 23 / 8, 31 / 8]) 3)) \<and>
   parseFloat (toFixed2 (fdiv (fsum [roundDouble (89 / 40), 23 / 8, 31 / 8]) 3)) =
     roundDouble (299 / 100) \<and>
   newYearGPA (studentAggregate
     [document ''S1'' 3 (31 / 8), document ''S1'' 1 (roundDouble (89 / 40)),
      document ''S1'' 2 (23 / 8)]) =
     [(1, roundDouble (223 / 100)), (2, roundDouble (288 / 100)), (3, roundDouble (388 / 100))]"
  using finalGPA_mean_of_unrounded_year_means
    [of "[document ''S1'' 3 (31 / 8), document ''S1'' 1 (roundDouble (89 / 40)),
      document ''S1'' 2 (23 / 8)]"]
  by (simp add: shuffled_years shuffled_means shuffled_aggregate shuffled_final year_document
      del: One_nat_def)

text \<open>
  C5. For a student with at least one document, the class that the aggregator computes is
  decided on the final GPA, which is the double that the text of a number of 2 decimal
  places denotes, by the first of the thresholds 3.7, 3.3 and 3.0 that it reaches, each
  bound inclusive, and is \<open>Just Pass\<close> below them. In hundredths: the class is
  \<open>First Class\<close> from 3.70 on, \<open>Second Upper Class\<close> from 3.30 to 3.69,
  \<open>Second Lower Class\<close> from 3.00 to 3.29 and \<open>Just Pass\<close> up to 2.99; the comparison
  of the doubles agrees with that of the decimal numbers.
\<close>

theorem finalClass_by_thresholds_on_rounded_finalGPA:
  assumes "rs \<noteq> []"
  shows "newFinalClass (studentAggregate rs) = classify (newFinalGPA (studentAggregate rs)) \<and>
         (\<exists>n. newFinalGPA (studentAggregate rs) = parseFloat (of_int n / 100) \<and>
            newFinalClass (studentAggregate rs) =
              (if 370 \<le> n then ''First Class''
               else if 330 \<le> n then ''Second Upper Class''
               else if 300 \<le> n then ''Second Lower Class''
               else ''Just Pass''))"
proof -
  let ?x = "fdiv (fsum (map (yearMean rs) (yearsOf rs))) (of_nat (length (yearsOf rs)))"
  obtain n where n: "toFixed2 ?x = of_int n / 100" using toFixed2_hundredths ..
  have g: "newFinalGPA (studentAggregate rs) = parseFloat (of_int n / 100)"
    by (simp add: studentAggregate_years n)
  have c: "newFinalClass (studentAggregate rs) = classify (newFinalGPA (studentAggregate rs))"
    by (rule finalClass_classify)
  from c g have "newFinalClass (studentAggregate rs) =
      (if 370 \<le> n then ''First Class''
       else if 330 \<le> n then ''Second Upper Class''
       else if 300 \<le> n then ''Second Lower Class''
       else ''Just Pass'')"
    by (simp only: classify_hundredths)
  with c g show ?thesis by blast
qed

theorem finalClass_by_thresholds_on_rounded_finalGPA_witness:
  "[document ''S1'' 1 (roundDouble (173 / 50)), document ''S1'' 1 (roundDouble (77 / 20)),
    document ''S1'' 1 (roundDouble (151 / 40))] \<noteq> [] \<and>
   newFinalGPA (studentAggregate
     [document ''S1'' 1 (roundDouble (173 / 50)), document ''S1'' 1 (roundDouble (77 / 20)),
      document ''S1'' 1 (roundDouble (151 / 40))]) = parseFloat (of_int 370 / 100) \<and>
   newFinalClass (studentAggregate
     [document ''S1'' 1 (roundDouble (173 / 50)), document ''S1'' 1 (roundDouble (77 / 20)),
      document ''S1'' 1 (roundDouble (151 / 40))]) = ''First Class'' \<and>
   [document ''S1'' 1 (roundDouble (173 / 50)), document ''S1'' 1 (roundDouble (151 / 40)),
    document ''S1'' 1 (roundDouble (77 / 20))] \<noteq> [] \<and>
   newFinalGPA (studentAggregate
     [document ''S1'' 1 (roundDouble (173 / 50)), document ''S1'' 1 (roundDouble (151 / 40)),
      document ''S1'' 1 (roundDouble (77 / 20))]) = parseFloat (of_int 369 / 100) \<and>
   newFinalClass (studentAggregate
     [document ''S1'' 1 (roundDouble (173 / 50)), document ''S1'' 1 (roundDouble (151 / 40)),
      document ''S1'' 1 (roundDouble (77 / 20))]) = ''Second Upper Class''"
  using finalClass_by_thresholds_on_rounded_finalGPA
    [of "[document ''S1'' 1 (roundDouble (173 / 50)), document ''S1'' 1 (roundDouble (77 / 20)),
          document ''S1'' 1 (roundDouble (151 / 40))]"]
    finalClass_by_thresholds_on_rounded_finalGPA
    [of "[document ''S1'' 1 (roundDouble (173 / 50)), document ''S1'' 1 (roundDouble (151 / 40)),
          document ''S1'' 1 (roundDouble (77 / 20))]"]
  by (simp add: boundary_first boundary_second parseFloat_def del: One_nat_def)

text \<open>
  C9. A second request on the store that the first one left yields the outcome of the
  first, leaves the store as it is, and computes for every student the aggregate that the
  first one computed. On a store that is not empty a request ends in an error, that of
  the grouping or that of the cast of \<open>yearGPAs\<close> in the first update, and writes nothing
  (lemma \<open>calculateFinal_eq\<close>). The last part does not need that: a request reads
  \<open>indexNo\<close>, \<open>year\<close> and \<open>semesterGPA\<close> only, so that no value of \<open>yearGPA\<close>,
  \<open>finalGPA\<close> and \<open>finalClass\<close> in the documents changes the aggregate of a student.
\<close>

theorem recalculateAll_idempotent:
  "calculateFinal (recalculateAll store) = calculateFinal store \<and>
   recalculateAll (recalculateAll store) = recalculateAll store \<and>
   aggregateOf (recalculateAll store) s = aggregateOf store s \<and>
   aggregateOf (map (\<lambda>r. r\<lparr>yearGPA := Y r, finalGPA := F r, finalClass := C r\<rparr>) store) s =
     aggregateOf store s"
proof -
  have "aggregateOf (map (\<lambda>r. r\<lparr>yearGPA := Y r, finalGPA := F r, finalClass := C r\<rparr>) store) s =
        aggregateOf store s"
    by (rule aggregateOf_map) simp_all
  then show ?thesis by (simp add: recalculateAll_eq)
qed

text \<open>
  C10, as stated, fails: the sums are sums of doubles, and the order of the documents
  decides how they round. A student has three documents in year 1, with the semester GPAs
  3.46, 3.775 and 3.85 (doubles that the parser produces). With the documents in this
  order the aggregate is the final GPA 3.69 and \<open>Second Upper Class\<close>; with the last two
  exchanged, which leaves the multiset of the (year, semester GPA) pairs as it is, the
  aggregate is the final GPA 3.70 and \<open>First Class\<close>.
\<close>

theorem aggregate_depends_on_order_of_documents:
  "mset (pairsOf
     [document ''S1'' 1 (roundDouble (173 / 50)), document ''S1'' 1 (roundDouble (151 / 40)),
      document ''S1'' 1 (roundDouble (77 / 20))] ''S1'') =
   mset (pairsOf
     [document ''S1'' 1 (roundDouble (173 / 50)), document ''S1'' 1 (roundDouble (77 / 20)),
      document ''S1'' 1 (roundDouble (151 / 40))] ''S1'') \<and>
   aggregateOf
     [document ''S1'' 1 (roundDouble (173 / 50)), document ''S1'' 1 (roundDouble (151 / 40)),
      document ''S1'' 1 (roundDouble (77 / 20))] ''S1'' =
   \<lparr>newYearGPA = [(1, roundDouble (369 / 100))], newFinalGPA = roundDouble (369 / 100),
    newFinalClass = ''Second Upper Class''\<rparr> \<and>
   aggregateOf
     [document ''S1'' 1 (roundDouble (173 / 50)), document ''S1'' 1 (roundDouble (77 / 20)),
      document ''S1'' 1 (roundDouble (151 / 40))] ''S1'' =
   \<lparr>newYearGPA = [(1, roundDouble (37 / 10))], newFinalGPA = roundDouble (37 / 10),
    newFinalClass = ''First Class''\<rparr> \<and>
   roundDouble (369 / 100) < roundDouble (37 / 10)"
  by (simp add: aggregateOf_def pairsOf_def indexNo_document year_document
        semesterGPA_document boundary_first boundary_second thresholds_eval
      del: One_nat_def)

text \<open>
  C10, amended. The aggregate computed for a student \<open>s\<close> depends only on the sequence, in
  the order of the store, of the (year, semester GPA) pairs of the documents whose
  \<open>indexNo\<close> is \<open>s\<close>: two stores that agree on that sequence give the same yearly mapping,
  final GPA and class for \<open>s\<close>, whatever the names, semesters and courses of the documents
  and whatever documents of other students the stores hold.
\<close>

theorem aggregate_depends_on_sequence_of_pairs:
  assumes "pairsOf A s = pairsOf B s"
  shows "aggregateOf A s = aggregateOf B s"
  by (simp only: aggregateOf_pairs assms)

theorem aggregate_depends_on_sequence_of_pairs_witness:
  "pairsOf
     [document ''S1'' 1 (roundDouble (173 / 50)), document ''S2'' 1 3,
      document ''S1'' 2 (31 / 8)] ''S1'' =
   pairsOf
     [exampleResult\<lparr>indexNo := ''S1'', semesterGPA := roundDouble (173 / 50)\<rparr>,
      document ''S1'' 2 (31 / 8), document ''S3'' 4 2] ''S1'' \<and>
   aggregateOf
     [document ''S1'' 1 (roundDouble (173 / 50)), document ''S2'' 1 3,
      document ''S1'' 2 (31 / 8)] ''S1'' =
   aggregateOf
     [exampleResult\<lparr>indexNo := ''S1'', semesterGPA := roundDouble (173 / 50)\<rparr>,
      document ''S1'' 2 (31 / 8), document ''S3'' 4 2] ''S1'' \<and>
   aggregateOf
     [document ''S1'' 1 (roundDouble (173 / 50)), document ''S2'' 1 3,
      document ''S1'' 2 (31 / 8)] ''S1'' =
   \<lparr>newYearGPA = [(1, roundDouble (173 / 50)), (2, roundDouble (388 / 100))],
    newFinalGPA = roundDouble (367 / 100), newFinalClass = ''Second Upper Class''\<rparr>"
  using aggregate_depends_on_sequence_of_pairs
    [of "[document ''S1'' 1 (roundDouble (173 / 50)), document ''S2'' 1 3,
          document ''S1'' 2 (31 / 8)]" "''S1''"
        "[exampleResult\<lparr>indexNo := ''S1'', semesterGPA := roundDouble (173 / 50)\<rparr>,
          document ''S1'' 2 (31 / 8), document ''S3'' 4 2]"]
  by (simp add: agg_eval exampleResult_def)

end
